theory Spec2Isabelle
  imports Complex_Main "HOL-Library.Sublist"
begin

section \<open>Common Python conventions\<close>

text \<open>
  Python numbers (ints and floats) are modelled as real numbers; exceptions are values of
  \<open>py_error\<close> and a computation that may raise returns \<open>py_error + 'a\<close>.
\<close>

datatype py_error = ZeroDivisionError | ValueError | IndexError | ComplexResult | NonFinite

text \<open>Python's \<open>int(x)\<close> on a float truncates towards zero.\<close>

definition py_int :: "real \<Rightarrow> int" where
  "py_int x = (if 0 \<le> x then \<lfloor>x\<rfloor> else \<lceil>x\<rceil>)"

text \<open>Item assignment \<open>xs[i] = v\<close>: a negative index counts from the end.\<close>

definition set_item :: "real list \<Rightarrow> int \<Rightarrow> real \<Rightarrow> py_error + real list" where
  "set_item xs i v =
     (let n = int (length xs); j = (if i < 0 then n + i else i)
      in if 0 \<le> j \<and> j < n then Inr (xs[nat j := v]) else Inl IndexError)"

section \<open>L16: methods.py\<close>

subsection \<open>spike_trains_to_binary\<close>

text \<open>The \<open>for spike_time in spike_times\<close> loop of \<open>spike_train_to_binary\<close>.\<close>

fun bin_loop :: "real \<Rightarrow> int \<Rightarrow> real list \<Rightarrow> real list \<Rightarrow> py_error + real list" where
  "bin_loop bin_size n_bins binary [] = Inr binary"
| "bin_loop bin_size n_bins binary (spike_time # rest) =
     (let bin_idx = py_int (spike_time / bin_size)
      in if bin_idx < n_bins
         then (case set_item binary bin_idx 1 of
                 Inl e \<Rightarrow> Inl e
               | Inr binary' \<Rightarrow> bin_loop bin_size n_bins binary' rest)
         else bin_loop bin_size n_bins binary rest)"

text \<open>
  The inner function: \<open>duration / bin_size\<close> raises on a zero bin size, and
  \<open>np.zeros\<close> raises ValueError on a negative length.
\<close>

definition spike_train_to_binary :: "real \<Rightarrow> real \<Rightarrow> real list \<Rightarrow> py_error + real list" where
  "spike_train_to_binary duration bin_size spike_times =
     (if bin_size = 0 then Inl ZeroDivisionError
      else let n_bins = py_int (duration / bin_size)
           in if n_bins < 0 then Inl ValueError
              else bin_loop bin_size n_bins (replicate (nat n_bins) 0) spike_times)"

text \<open>The list comprehension over all trains; the first exception ends it.\<close>

fun spike_trains_to_binary :: "real \<Rightarrow> real \<Rightarrow> real list list \<Rightarrow> py_error + real list list" where
  "spike_trains_to_binary duration bin_size [] = Inr []"
| "spike_trains_to_binary duration bin_size (spike_times # rest) =
     (case spike_train_to_binary duration bin_size spike_times of
        Inl e \<Rightarrow> Inl e
      | Inr binary \<Rightarrow>
          (case spike_trains_to_binary duration bin_size rest of
             Inl e \<Rightarrow> Inl e
           | Inr binaries \<Rightarrow> Inr (binary # binaries)))"

subsection \<open>lif_integrate\<close>

text \<open>
  A two-dimensional array of shape (ncells, T) is given by its number of columns \<open>T\<close> and
  its rows; \<open>a.sum(axis=0)\<close> is the vector of the \<open>T\<close> column sums.
\<close>

type_synonym array2d = "nat \<times> real list list"

definition well_shaped :: "array2d \<Rightarrow> bool" where
  "well_shaped a = (\<forall>r \<in> set (snd a). length r = fst a)"

definition sum_axis0 :: "array2d \<Rightarrow> real list" where
  "sum_axis0 a = map (\<lambda>j. sum_list (map (\<lambda>r. r ! j) (snd a))) [0..<fst a]"

record lif_params =
  tau :: real
  dt :: real
  ur :: real
  u_thresh :: real
  w_exc :: real
  w_inh :: real

definition lif_defaults :: lif_params where
  "lif_defaults = \<lparr>tau = 20, dt = 1, ur = - 77, u_thresh = - 55, w_exc = 2, w_inh = - 2\<rparr>"

text \<open>
  The body of \<open>for i_t in range(len(us) - 1)\<close>, over the list of indices. Reading
  \<open>inh_spike_counts[i_t]\<close> or \<open>exc_spike_counts[i_t]\<close> past the end raises IndexError; a
  division by \<open>tau = 0\<close> gives a non-finite float, which is no real number.
\<close>

fun lif_loop :: "lif_params \<Rightarrow> real list \<Rightarrow> real list \<Rightarrow> nat list \<Rightarrow>
    real list \<times> real list \<Rightarrow> py_error + (real list \<times> real list)" where
  "lif_loop p exc_spike_counts inh_spike_counts [] (us, out_spike_train) =
     Inr (us, out_spike_train)"
| "lif_loop p exc_spike_counts inh_spike_counts (i_t # rest) (us, out_spike_train) =
     (if length inh_spike_counts \<le> i_t \<or> length exc_spike_counts \<le> i_t then Inl IndexError
      else if tau p = 0 then Inl NonFinite
      else
        let leak = us ! i_t - ur p;
            current = w_inh p * inh_spike_counts ! i_t + w_exc p * exc_spike_counts ! i_t;
            us1 = us[i_t + 1 := us ! i_t - dt p * leak / tau p + current]
        in if us1 ! (i_t + 1) > u_thresh p
           then lif_loop p exc_spike_counts inh_spike_counts rest
                  (us1[i_t + 1 := ur p], out_spike_train[i_t + 1 := 1])
           else lif_loop p exc_spike_counts inh_spike_counts rest (us1, out_spike_train))"

definition lif_integrate :: "lif_params \<Rightarrow> array2d \<Rightarrow> array2d \<Rightarrow>
    py_error + (real list \<times> real list)" where
  "lif_integrate p spike_trains_exc spike_trains_inh =
     (let exc_spike_counts = sum_axis0 spike_trains_exc;
          inh_spike_counts = sum_axis0 spike_trains_inh;
          us = replicate (length exc_spike_counts) 0;
          out_spike_train = replicate (length exc_spike_counts) 0
      in if length us = 0 then Inl IndexError
         else lif_loop p exc_spike_counts inh_spike_counts [0..<length us - 1]
                (us[0 := ur p], out_spike_train))"

text \<open>The loop invariant after the sample with index \<open>k\<close> has been written.\<close>

definition lif_inv :: "lif_params \<Rightarrow> nat \<Rightarrow> nat \<Rightarrow> real list \<times> real list \<Rightarrow> bool" where
  "lif_inv p T k s = (length (fst s) = T \<and> length (snd s) = T \<and> fst s ! 0 = ur p \<and>
     (\<forall>i \<le> k. i < T \<longrightarrow> fst s ! i \<le> u_thresh p \<and> (snd s ! i = 1 \<longrightarrow> fst s ! i = ur p)) \<and>
     (\<forall>i. k < i \<longrightarrow> i < T \<longrightarrow> snd s ! i = 0))"

section \<open>L09: L10_widget.py\<close>

text \<open>
  Float arithmetic on reals. A power \<open>x ** n\<close> with an integral exponent is the integer
  power; otherwise it is \<open>exp (n * ln x)\<close> for a positive base. A zero base with a negative
  exponent and a zero divisor give an exception or a non-finite float, and a negative base
  with a fractional exponent gives a complex number or nan: none of them is a real number.
\<close>

definition py_pow :: "real \<Rightarrow> real \<Rightarrow> py_error + real" where
  "py_pow x n =
     (if n = of_int \<lfloor>n\<rfloor>
      then (if x = 0 \<and> n < 0 then Inl ZeroDivisionError else Inr (x powi \<lfloor>n\<rfloor>))
      else if 0 < x then Inr (x powr n)
      else if x = 0 then (if 0 < n then Inr 0 else Inl ZeroDivisionError)
      else Inl ComplexResult)"

definition py_truediv :: "real \<Rightarrow> real \<Rightarrow> py_error + real" where
  "py_truediv x y = (if y = 0 then Inl ZeroDivisionError else Inr (x / y))"

text \<open>\<open>CICRWidget.rhs\<close>; the state vector \<open>y\<close> is unpacked into \<open>Cai, CaSR\<close>.\<close>

definition rhs :: "real \<Rightarrow> real \<times> real \<Rightarrow> real \<Rightarrow> real \<Rightarrow> real \<Rightarrow> real \<Rightarrow> real \<Rightarrow> real \<Rightarrow>
    real \<Rightarrow> real \<Rightarrow> real \<Rightarrow> py_error + (real \<times> real)" where
  "rhs t y Cao k_entry k_extrusion k_uptake kappa0 kappa1 Kd n gamma =
     (case y of (Cai, CaSR) \<Rightarrow>
        let Jentry = k_entry * (Cao - Cai);
            Jextrusion = k_extrusion * Cai;
            Juptake = k_uptake * Cai
        in case py_pow Cai n of Inl e \<Rightarrow> Inl e | Inr Cai_n \<Rightarrow>
           (case py_pow Kd n of Inl e \<Rightarrow> Inl e | Inr Kd_n \<Rightarrow>
           (case py_truediv (kappa1 * Cai_n) (Cai_n + Kd_n) of Inl e \<Rightarrow> Inl e | Inr ratio \<Rightarrow>
              let k_rel = kappa0 + ratio;
                  Jrel = k_rel * (CaSR - Cai);
                  dCai_dt = Jentry + Jrel - Jextrusion - Juptake
              in case py_truediv (Juptake - Jrel) gamma of Inl e \<Rightarrow> Inl e
                 | Inr dCaSR_dt \<Rightarrow> Inr (dCai_dt, dCaSR_dt))))"

section \<open>L09: Jafri_model.py\<close>

text \<open>The class attributes of \<open>Jafri_model_parts\<close> read by the L-type channel block.\<close>

record jafri_parameters =
  par_a :: real
  par_b :: real
  par_g :: real
  par_f :: real
  par_g' :: real
  par_f' :: real
  par_omega :: real

definition Jafri_model_parts :: jafri_parameters where
  "Jafri_model_parts =
     \<lparr>par_a = 2, par_b = 2, par_g = 2, par_f = 0.3, par_g' = 0, par_f' = 0, par_omega = 0.01\<rparr>"

text \<open>
  The L-type calcium channel block of \<open>currents_concentrations\<close> (the rates \<open>alpha\<close>,
  \<open>beta\<close>, \<open>gamma\<close> and the twelve occupancy derivatives), in the order of the return
  statement. Of the 27 state arguments the block reads \<open>V\<close>, \<open>Ca_SS\<close> and the twelve
  occupancies. The division by \<open>self.b\<close> raises for \<open>b = 0\<close>; \<open>math.exp\<close> is the real
  exponential (its overflow for very large arguments is a matter of floats).
\<close>

definition ltype_derivatives :: "jafri_parameters \<Rightarrow> real \<Rightarrow> real \<Rightarrow> real \<Rightarrow> real \<Rightarrow> real \<Rightarrow>
    real \<Rightarrow> real \<Rightarrow> real \<Rightarrow> real \<Rightarrow> real \<Rightarrow> real \<Rightarrow> real \<Rightarrow> real \<Rightarrow> real \<Rightarrow> py_error + real list" where
  "ltype_derivatives self V C0 C1 C2 C3 C4 C_Ca0 C_Ca1 C_Ca2 C_Ca3 C_Ca4 Op O_Ca Ca_SS =
     (if par_b self = 0 then Inl ZeroDivisionError
      else
        let alpha = 0.40 * exp ((V + 12.0) / 10.0);
            beta = 0.05 * exp ((V + 12.0) / - 13.0);
            gamma = 0.1875 * Ca_SS;
            alpha_a = alpha * par_a self;
            beta_b = beta / par_b self;
            dC0_dt = (beta * C1 + par_omega self * C_Ca0) - (4.0 * alpha + gamma) * C0;
            dC1_dt = (4.0 * alpha * C0 + 2.0 * beta * C2 + (par_omega self / par_b self) * C_Ca1)
                     - (beta + 3.0 * alpha + gamma * par_a self) * C1;
            dC2_dt = (3.0 * alpha * C1 + 3.0 * beta * C3 + (par_omega self / (par_b self ^ 2)) * C_Ca2)
                     - (beta * 2.0 + 2.0 * alpha + gamma * (par_a self ^ 2)) * C2;
            dC3_dt = (2.0 * alpha * C2 + 4.0 * beta * C4 + (par_omega self / (par_b self ^ 3)) * C_Ca3)
                     - (beta * 3.0 + alpha + gamma * (par_a self ^ 3)) * C3;
            dC4_dt = (alpha * C3 + par_g self * Op + (par_omega self / (par_b self ^ 4)) * C_Ca4)
                     - (beta * 4.0 + par_f self + gamma * (par_a self ^ 4)) * C4;
            dC_Ca0_dt = (beta_b * C_Ca1 + gamma * C_Ca0) - (4.0 * alpha_a + par_omega self) * C_Ca0;
            dC_Ca1_dt = (4.0 * alpha_a * C_Ca0 + 2.0 * beta_b * C_Ca2 + gamma * par_a self * C1)
                     - (beta_b + 3.0 * alpha_a + par_omega self / par_b self) * C_Ca1;
            dC_Ca2_dt = (3.0 * alpha_a * C_Ca1 + 3.0 * beta_b * C_Ca3 + gamma * (par_a self ^ 2) * C2)
                     - (beta_b * 2.0 + 2.0 * alpha_a + par_omega self / (par_b self ^ 2)) * C_Ca2;
            dC_Ca3_dt = (2.0 * alpha_a * C_Ca2 + 4.0 * beta_b * C_Ca4 + gamma * (par_a self ^ 3) * C3)
                     - (beta_b * 3.0 + alpha_a + par_omega self / (par_b self ^ 3)) * C_Ca3;
            dC_Ca4_dt = (alpha_a * C_Ca3 + par_g' self * O_Ca + gamma * (par_a self ^ 4) * C4)
                     - (beta_b * 4.0 + par_f' self + par_omega self / (par_b self ^ 4)) * C_Ca4;
            dO_dt = par_f self * C4 - par_g self * Op;
            dO_Ca_dt = par_f' self * C_Ca4 - par_g' self * O_Ca
        in Inr [dC0_dt, dC1_dt, dC2_dt, dC3_dt, dC4_dt,
                dC_Ca0_dt, dC_Ca1_dt, dC_Ca2_dt, dC_Ca3_dt, dC_Ca4_dt, dO_dt, dO_Ca_dt])"

section \<open>Stream 1: 02B_APD_restitution/run.py\<close>

subsection \<open>visualize\<close>

text \<open>
  A line of \<open>restout_APD_restitution.dat\<close> is given by whether its first character is
  \<open>#\<close> and by its whitespace-separated tokens, each with the value \<open>float\<close> gives it
  (\<open>None\<close> for a token that \<open>float\<close> rejects with ValueError).
\<close>

record dat_line =
  starts_with_hash :: bool
  tokens :: "real option list"

text \<open>\<open>float(p[i])\<close>: IndexError for a missing token, ValueError for a non-numeric one.\<close>

definition get_float :: "real option list \<Rightarrow> nat \<Rightarrow> py_error + real" where
  "get_float p i =
     (if length p \<le> i then Inl IndexError
      else case p ! i of None \<Rightarrow> Inl ValueError | Some x \<Rightarrow> Inr x)"

text \<open>
  The \<open>for line in lines\<close> loop with its state \<open>di, apd, cnt, diffdi, diffapd\<close>; \<open>break\<close>
  ends it with the lists accumulated so far.
\<close>

fun visualize_loop :: "dat_line list \<Rightarrow> real list \<times> real list \<times> nat \<times> real \<times> real \<Rightarrow>
    py_error + (real list \<times> real list)" where
  "visualize_loop [] (di, apd, cnt, diffdi, diffapd) = Inr (di, apd)"
| "visualize_loop (line # rest) (di, apd, cnt, diffdi, diffapd) =
     (if starts_with_hash line then visualize_loop rest (di, apd, cnt, diffdi, diffapd)
      else
        let p = tokens line in
        case (if cnt > 0
              then (case get_float p 5 of Inl e \<Rightarrow> Inl e | Inr p5 \<Rightarrow>
                   (case get_float p 3 of Inl e \<Rightarrow> Inl e | Inr p3 \<Rightarrow>
                      Inr (di ! (cnt - 1) - p5, apd ! (cnt - 1) - p3)))
              else Inr (diffdi, diffapd)) of
          Inl e \<Rightarrow> Inl e
        | Inr (diffdi', diffapd') \<Rightarrow>
            if diffdi' > - 5 \<and> diffapd' > - 10
            then (case get_float p 3 of Inl e \<Rightarrow> Inl e | Inr p3 \<Rightarrow>
                 (case get_float p 5 of Inl e \<Rightarrow> Inl e | Inr p5 \<Rightarrow>
                    visualize_loop rest (di @ [p5], apd @ [p3], cnt + 1, diffdi', diffapd')))
            else Inr (di, apd))"

text \<open>
  \<open>visualize\<close> hands \<open>di\<close>, \<open>apd\<close> and the axis limits to \<open>plotResults\<close>; \<open>min\<close> of an
  empty list raises ValueError.
\<close>

definition plot_arguments :: "real list \<Rightarrow> real list \<Rightarrow>
    real list \<times> real list \<times> real \<times> real \<times> real \<times> real" where
  "plot_arguments di apd =
     (di, apd, Min (set di) - 10, Max (set di) + 10, Min (set apd) - 10, Max (set apd) + 10)"

definition visualize :: "dat_line list \<Rightarrow>
    py_error + (real list \<times> real list \<times> real \<times> real \<times> real \<times> real)" where
  "visualize lines =
     (case visualize_loop lines ([], [], 0, 0, 0) of
        Inl e \<Rightarrow> Inl e
      | Inr (di, apd) \<Rightarrow> if di = [] then Inl ValueError else Inr (plot_arguments di apd))"

text \<open>
  The words of the specification: the data rows are the lines that are no comments, APD is
  column 3 and DI column 5, and a row is acceptable after the previous kept row when both
  differences (previous minus current) exceed -5 and -10.
\<close>

definition data_rows :: "dat_line list \<Rightarrow> dat_line list" where
  "data_rows lines = filter (\<lambda>l. \<not> starts_with_hash l) lines"

definition numeric_row :: "dat_line \<Rightarrow> bool" where
  "numeric_row l = (6 \<le> length (tokens l) \<and> tokens l ! 3 \<noteq> None \<and> tokens l ! 5 \<noteq> None)"

definition column :: "nat \<Rightarrow> dat_line \<Rightarrow> real" where
  "column i l = (case tokens l ! i of None \<Rightarrow> 0 | Some x \<Rightarrow> x)"

definition acceptable :: "dat_line \<Rightarrow> dat_line \<Rightarrow> bool" where
  "acceptable prev cur =
     (column 5 prev - column 5 cur > - 5 \<and> column 3 prev - column 3 cur > - 10)"

fun kept_after :: "dat_line \<Rightarrow> dat_line list \<Rightarrow> dat_line list" where
  "kept_after prev [] = []"
| "kept_after prev (r # rs) = (if acceptable prev r then r # kept_after r rs else [])"

subsection \<open>jobID\<close>

text \<open>\<open>'{}'.format(i)\<close> for an int: its decimal digits, with a minus sign when negative.\<close>

function str_nat :: "nat \<Rightarrow> string" where
  "str_nat n =
     (if n < 10 then [''0123456789'' ! n]
      else str_nat (n div 10) @ [''0123456789'' ! (n mod 10)])"
  by pat_completeness auto
termination
  by (relation "measure id") auto

definition str_int :: "int \<Rightarrow> string" where
  "str_int i = (if i < 0 then CHR ''-'' # str_nat (nat (- i)) else str_nat (nat i))"

text \<open>
  The parsed command line: \<open>--CI0\<close> is an int (default 50), \<open>--CI1\<close> an int or \<open>None\<close>,
  \<open>--params\<close> a string or \<open>None\<close>.
\<close>

record restitution_args =
  arg_CI0 :: int
  arg_CI1 :: "int option"
  arg_Protocol :: string
  arg_imp :: string
  arg_params :: "string option"

definition format_optional_int :: "int option \<Rightarrow> string" where
  "format_optional_int v = (case v of None \<Rightarrow> ''None'' | Some i \<Rightarrow> str_int i)"

text \<open>Truth value of \<open>args.params\<close>: neither \<open>None\<close> nor the empty string.\<close>

definition truthy :: "string option \<Rightarrow> bool" where
  "truthy v = (case v of None \<Rightarrow> False | Some x \<Rightarrow> x \<noteq> [])"

text \<open>
  \<open>jobID\<close>; \<open>today\<close> is \<open>date.today().isoformat()\<close>. The template \<open>'_{}'\<close> has one
  replacement field, so of the two arguments \<open>args.imp, args.params\<close> of \<open>format\<close> only the
  first is inserted.
\<close>

definition jobID :: "string \<Rightarrow> restitution_args \<Rightarrow> string" where
  "jobID today args =
     (let ID = today @ ''_CI0-'' @ str_int (arg_CI0 args) @ ''_CI1-''
                 @ format_optional_int (arg_CI1 args) @ ''_'' @ arg_Protocol args
      in if truthy (arg_params args) then ID @ ''_'' @ arg_imp args else ID)"

section \<open>Stream 1: 01_basic_bench/run.py\<close>

record bench_args =
  arg_EP :: string
  arg_EP_par :: string
  arg_init :: string
  arg_duration :: string
  arg_bcl :: string
  arg_ID :: string

text \<open>The elements of the bench argument list are strings, floats and ints.\<close>

datatype cmd_arg = StrArg string | FltArg real | IntArg int

text \<open>\<open>os.path.join\<close> of two components on a POSIX system.\<close>

definition path_join :: "string \<Rightarrow> string \<Rightarrow> string" where
  "path_join a b =
     (if b \<noteq> [] \<and> hd b = CHR ''/'' then b
      else if a = [] \<or> last a = CHR ''/'' then a @ b
      else a @ ''/'' @ b)"

text \<open>
  What \<open>run\<close> does up to its call of the external bench binary: either \<open>sys.exit(code)\<close>
  after the printed lines, or \<open>job.bench(cmd)\<close> with the argument list.
\<close>

datatype run_outcome = SysExit int "string list" | Bench "cmd_arg list"

text \<open>
  \<open>run\<close> from its start to \<open>job.bench\<close>. The file system is the predicate \<open>isfile\<close>
  (\<open>os.path.isfile\<close>) and \<open>float_of\<close> is \<open>float\<close> on strings: \<open>None\<close> where \<open>float\<close> raises
  ValueError or gives a non-finite value (on which \<open>int\<close> raises). The quotient
  \<open>float(args.duration) / float(args.bcl)\<close> raises ZeroDivisionError for a zero cycle length.
  These statements come before the check of the initial-state file. The identity test
  \<open>args.EP_par is not ''\<close> is read as inequality with the empty string.
\<close>

definition run :: "(string \<Rightarrow> real option) \<Rightarrow> (string \<Rightarrow> bool) \<Rightarrow> bench_args \<Rightarrow> string \<Rightarrow>
    py_error + run_outcome" where
  "run float_of isfile args job_ID =
     (let cmd = [StrArg ''--duration'', StrArg (arg_duration args), StrArg ''--stim-assign'', StrArg ''on''];
          cmd = (if arg_EP args = ''MBRDR'' then cmd
                 else if arg_EP args = ''tenTusscherPanfilov'' \<or> arg_EP args = ''ORd''
                      then cmd @ [StrArg ''--stim-species'', StrArg ''K_i'']
                      else cmd);
          cmd = cmd @ [StrArg (''--imp='' @ arg_EP args)];
          cmd = (if arg_EP_par args \<noteq> [] then cmd @ [StrArg ''--imp-par'', StrArg (arg_EP_par args)]
                 else cmd)
      in case float_of (arg_duration args) of None \<Rightarrow> Inl ValueError | Some d \<Rightarrow>
        (case float_of (arg_bcl args) of None \<Rightarrow> Inl ValueError | Some b \<Rightarrow>
           if b = 0 then Inl ZeroDivisionError
           else
             let cmd = cmd @ [StrArg ''--stim-curr'', FltArg 30.0,
                              StrArg ''--numstim'', IntArg (py_int (d / b + 1)),
                              StrArg ''--bcl'', StrArg (arg_bcl args)];
                 cmd = cmd @ [StrArg ''--dt'', FltArg 0.01];
                 expID = (if arg_ID args \<noteq> [] then arg_ID args @ ''_'' else job_ID @ ''_'');
                 cmd = cmd @ [StrArg ''--dt-out'', FltArg 0.1,
                              StrArg ''--save-ini-file'',
                              StrArg (expID @ arg_EP args @ ''_bcl_'' @ arg_bcl args @ ''_ms_dur_''
                                     @ arg_duration args @ ''_ms.sv''),
                              StrArg ''--save-ini-time'', StrArg (arg_duration args)]
             in if arg_init args \<noteq> [] \<and> \<not> isfile (arg_init args)
                then Inr (SysExit (- 1)
                       [''State variable initialization file '' @ arg_init args @ '' not found!''])
                else
                  let cmd = (if arg_init args \<noteq> []
                             then cmd @ [StrArg ''--read-ini-file'', StrArg (arg_init args)] else cmd);
                      cmd = cmd @ [StrArg (''--fout='' @ path_join job_ID (arg_EP args)),
                                   StrArg ''--bin'', StrArg ''-v'']
                  in Inr (Bench cmd)))"

text \<open>A sample environment: \<open>float\<close> on three strings, and file systems without and with files.\<close>

definition sample_float :: "string \<Rightarrow> real option" where
  "sample_float x =
     (if x = ''500'' then Some 500 else if x = ''1000'' then Some 1000
      else if x = ''0'' then Some 0 else None)"

definition no_files :: "string \<Rightarrow> bool" where
  "no_files path = False"

definition all_files :: "string \<Rightarrow> bool" where
  "all_files path = True"

section \<open>L16: variable.py\<close>

text \<open>
  \<open>Variable\<close> objects have identity: the gradients dictionary is keyed by the object and
  the leaf test compares with \<open>is\<close>. The model keeps all objects in a heap, a list in order
  of creation, and an object is its index there. Every operation below is handed indices of
  objects that exist. A node holds its value and its tuple of gradient edges
  \<open>(child, local derivative)\<close>.
\<close>

record variable =
  var_value :: real
  var_gradients :: "(nat \<times> real) list"

type_synonym heap = "variable list"

text \<open>
  The constructor \<open>Variable(value, gradients)\<close>: without gradients the node gets the single
  edge to itself with \<open>np.sign(value)\<close>.
\<close>

definition Variable :: "real \<Rightarrow> (nat \<times> real) list option \<Rightarrow> heap \<Rightarrow> nat \<times> heap" where
  "Variable v gradients h =
     (let self = length h
      in (self, h @ [\<lparr>var_value = v,
                      var_gradients = (case gradients of
                                         Some gs \<Rightarrow> gs
                                       | None \<Rightarrow> [(self, sgn v)])\<rparr>]))"

definition add :: "nat \<Rightarrow> nat \<Rightarrow> heap \<Rightarrow> nat \<times> heap" where
  "add a b h =
     Variable (var_value (h ! a) + var_value (h ! b)) (Some [(a, 1), (b, 1)]) h"

definition mul :: "nat \<Rightarrow> nat \<Rightarrow> heap \<Rightarrow> nat \<times> heap" where
  "mul a b h =
     Variable (var_value (h ! a) * var_value (h ! b))
       (Some [(a, var_value (h ! b)), (b, var_value (h ! a))]) h"

definition neg :: "nat \<Rightarrow> heap \<Rightarrow> nat \<times> heap" where
  "neg a h = Variable (- 1 * var_value (h ! a)) (Some [(a, - 1)]) h"

definition inv_variable :: "nat \<Rightarrow> heap \<Rightarrow> py_error + (nat \<times> heap)" where
  "inv_variable a h =
     (if var_value (h ! a) = 0 then Inl ZeroDivisionError
      else Inr (Variable (1 / var_value (h ! a))
                  (Some [(a, - 1 / (var_value (h ! a)) ^ 2)]) h))"

definition pow :: "nat \<Rightarrow> real \<Rightarrow> heap \<Rightarrow> py_error + (nat \<times> heap)" where
  "pow a n h =
     (case py_pow (var_value (h ! a)) n of
        Inl e \<Rightarrow> Inl e
      | Inr v \<Rightarrow> Inr (Variable v (Some [(a, n * var_value (h ! a))]) h))"

text \<open>An operand of an operator or of \<open>exp\<close> is a \<open>Variable\<close> or a plain number.\<close>

datatype operand = Var nat | Num real

definition as_variable :: "operand \<Rightarrow> heap \<Rightarrow> nat \<times> heap" where
  "as_variable other h = (case other of Var i \<Rightarrow> (i, h) | Num x \<Rightarrow> Variable x None h)"

definition exp_variable :: "operand \<Rightarrow> heap \<Rightarrow> nat \<times> heap" where
  "exp_variable a h =
     (case as_variable a h of (a', h1) \<Rightarrow>
        let v = exp (var_value (h1 ! a')) in Variable v (Some [(a', v)]) h1)"

text \<open>The operator methods \<open>__add__\<close>, \<open>__radd__\<close>, \<open>__mul__\<close>, ... of the class.\<close>

definition op_add :: "nat \<Rightarrow> operand \<Rightarrow> heap \<Rightarrow> nat \<times> heap" where
  "op_add self other h = (case as_variable other h of (other', h1) \<Rightarrow> add self other' h1)"

definition op_radd :: "nat \<Rightarrow> operand \<Rightarrow> heap \<Rightarrow> nat \<times> heap" where
  "op_radd self other h = (case as_variable other h of (other', h1) \<Rightarrow> add self other' h1)"

definition op_mul :: "nat \<Rightarrow> operand \<Rightarrow> heap \<Rightarrow> nat \<times> heap" where
  "op_mul self other h = (case as_variable other h of (other', h1) \<Rightarrow> mul self other' h1)"

definition op_rmul :: "nat \<Rightarrow> operand \<Rightarrow> heap \<Rightarrow> nat \<times> heap" where
  "op_rmul self other h = (case as_variable other h of (other', h1) \<Rightarrow> mul self other' h1)"

definition op_sub :: "nat \<Rightarrow> operand \<Rightarrow> heap \<Rightarrow> nat \<times> heap" where
  "op_sub self other h =
     (case as_variable other h of (other', h1) \<Rightarrow>
        (case neg other' h1 of (m, h2) \<Rightarrow> add self m h2))"

definition op_rsub :: "nat \<Rightarrow> operand \<Rightarrow> heap \<Rightarrow> nat \<times> heap" where
  "op_rsub self other h =
     (case as_variable other h of (other', h1) \<Rightarrow>
        (case neg self h1 of (m, h2) \<Rightarrow> add other' m h2))"

definition op_truediv :: "nat \<Rightarrow> operand \<Rightarrow> heap \<Rightarrow> py_error + (nat \<times> heap)" where
  "op_truediv self other h =
     (case as_variable other h of (other', h1) \<Rightarrow>
        (case inv_variable other' h1 of Inl e \<Rightarrow> Inl e | Inr (m, h2) \<Rightarrow> Inr (mul self m h2)))"

definition op_rtruediv :: "nat \<Rightarrow> operand \<Rightarrow> heap \<Rightarrow> py_error + (nat \<times> heap)" where
  "op_rtruediv self other h =
     (case as_variable other h of (other', h1) \<Rightarrow>
        (case inv_variable self h1 of Inl e \<Rightarrow> Inl e | Inr (m, h2) \<Rightarrow> Inr (mul other' m h2)))"

definition op_pow :: "nat \<Rightarrow> real \<Rightarrow> heap \<Rightarrow> py_error + (nat \<times> heap)" where
  "op_pow self exponent h = pow self exponent h"

definition op_neg :: "nat \<Rightarrow> heap \<Rightarrow> nat \<times> heap" where
  "op_neg self h = neg self h"

subsection \<open>compute_gradients\<close>

text \<open>The \<open>defaultdict(lambda: 0)\<close>: a missing key reads as 0.\<close>

definition lookup :: "(nat \<rightharpoonup> real) \<Rightarrow> nat \<Rightarrow> real" where
  "lookup gradients k = (case gradients k of None \<Rightarrow> 0 | Some x \<Rightarrow> x)"

text \<open>The leaf test: one gradient edge, and its child is the node itself.\<close>

definition criteria :: "heap \<Rightarrow> nat \<Rightarrow> bool" where
  "criteria h child_variable =
     (length (var_gradients (h ! child_variable)) = 1 \<and>
      fst (var_gradients (h ! child_variable) ! 0) = child_variable)"

text \<open>
  The loop of \<open>_compute_gradients(variable, total_gradient)\<close> over the edges of
  \<open>variable\<close>, with the gradients dictionary passed along. The first argument bounds the
  depth of the recursion, as the interpreter's recursion limit does: exceeding it is \<open>None\<close>.
\<close>

fun compute_children :: "nat \<Rightarrow> heap \<Rightarrow> (nat \<times> real) list \<Rightarrow> real \<Rightarrow> (nat \<rightharpoonup> real) \<Rightarrow>
    (nat \<rightharpoonup> real) option" where
  "compute_children depth h [] total_gradient gradients = Some gradients"
| "compute_children 0 h (edge # rest) total_gradient gradients = None"
| "compute_children (Suc depth) h ((child_variable, child_gradient) # rest) total_gradient gradients =
     (let gradient = total_gradient * child_gradient;
          gradients1 = gradients(child_variable \<mapsto> lookup gradients child_variable + gradient)
      in if criteria h child_variable
         then compute_children (Suc depth) h rest total_gradient gradients1
         else (case compute_children depth h (var_gradients (h ! child_variable)) gradient gradients1 of
                 None \<Rightarrow> None
               | Some gradients2 \<Rightarrow> compute_children (Suc depth) h rest total_gradient gradients2))"

definition compute_gradients :: "nat \<Rightarrow> heap \<Rightarrow> nat \<Rightarrow> (nat \<rightharpoonup> real) option" where
  "compute_gradients depth h variable =
     compute_children depth h (var_gradients (h ! variable)) 1 Map.empty"

subsection \<open>The self-test of the module\<close>

text \<open>\<open>loss\<close>, \<open>sigma\<close> and \<open>y_hat\<close> of the \<open>__main__\<close> block, with Python's operator dispatch.\<close>

definition loss :: "nat \<Rightarrow> nat \<Rightarrow> heap \<Rightarrow> py_error + (nat \<times> heap)" where
  "loss y yh h =
     (case op_sub y (Var yh) h of (d, h1) \<Rightarrow>
        (case op_pow d 2 h1 of Inl e \<Rightarrow> Inl e | Inr (p, h2) \<Rightarrow> Inr (op_rmul p (Num 0.5) h2)))"

definition sigma :: "nat \<Rightarrow> heap \<Rightarrow> py_error + (nat \<times> heap)" where
  "sigma x h =
     (case op_neg x h of (m, h1) \<Rightarrow>
        (case exp_variable (Var m) h1 of (e, h2) \<Rightarrow>
           (case op_radd e (Num 1) h2 of (s, h3) \<Rightarrow> op_rtruediv s (Num 1) h3)))"

definition y_hat :: "nat \<Rightarrow> nat \<Rightarrow> nat \<Rightarrow> heap \<Rightarrow> py_error + (nat \<times> heap)" where
  "y_hat w_0 w_1 x_1 h =
     (case op_mul w_1 (Var x_1) h of (m, h1) \<Rightarrow>
        (case op_add w_0 (Var m) h1 of (s, h2) \<Rightarrow> sigma s h2))"

text \<open>
  The four leaves \<open>x_1 = 0.1\<close>, \<open>w_0 = 4\<close>, \<open>w_1 = 3\<close>, \<open>y = 10\<close> in the order of their
  creation (indices 0 to 3), then \<open>y_hat(w_0, w_1, x_1)\<close> and \<open>loss(y, y_hat)\<close>: the result
  is the heap with the indices of \<open>y\<close>, of the prediction and of the loss.
\<close>

definition self_test_graph :: "py_error + (heap \<times> nat \<times> nat \<times> nat)" where
  "self_test_graph =
     (case Variable 0.1 None [] of (x_1, h1) \<Rightarrow>
      case Variable 4 None h1 of (w_0, h2) \<Rightarrow>
      case Variable 3 None h2 of (w_1, h3) \<Rightarrow>
      case Variable 10 None h3 of (y, h4) \<Rightarrow>
        (case y_hat w_0 w_1 x_1 h4 of Inl e \<Rightarrow> Inl e | Inr (yh, h5) \<Rightarrow>
        (case loss y yh h5 of Inl e \<Rightarrow> Inl e | Inr (l, h6) \<Rightarrow> Inr (h6, y, yh, l))))"

text \<open>\<open>numpy.isclose\<close> with its default tolerances \<open>rtol = 1e-05\<close>, \<open>atol = 1e-08\<close>.\<close>

definition isclose :: "real \<Rightarrow> real \<Rightarrow> bool" where
  "isclose a b = (\<bar>a - b\<bar> \<le> 1 / 10 ^ 8 + (1 / 10 ^ 5) * \<bar>b\<bar>)"

text \<open>
  The first assertion of the self-test reads the gradients dictionary of the loss at \<open>y\<close>:
  the triple is that gradient, the value of \<open>y\<close> and the value of the prediction.
\<close>

definition loss_gradient_wrt_y :: "nat \<Rightarrow> (real \<times> real \<times> real) option" where
  "loss_gradient_wrt_y depth =
     (case self_test_graph of
        Inl e \<Rightarrow> None
      | Inr (h, y, yh, l) \<Rightarrow>
          (case compute_gradients depth h l of
             None \<Rightarrow> None
           | Some g \<Rightarrow> Some (lookup g y, var_value (h ! y), var_value (h ! yh))))"

text \<open>
  Heaps as the constructors build them: a node's edges point to earlier nodes, or the node
  is a leaf with its single self-edge.
\<close>

definition wf_heap :: "heap \<Rightarrow> bool" where
  "wf_heap h =
     (\<forall>j < length h. criteria h j \<or> (\<forall>e \<in> set (var_gradients (h ! j)). fst e < j))"

section \<open>Verified properties\<close>

subsection \<open>spike_trains_to_binary\<close>

lemma bin_loop_nonneg:
  assumes "0 < bin_size" "\<forall>t\<in>set ts. 0 \<le> t" "int (length b) = n"
  shows "\<exists>b'. bin_loop bin_size n b ts = Inr b' \<and> length b' = length b \<and>
     (\<forall>k < length b. b' ! k = (if \<exists>t\<in>set ts. \<lfloor>t / bin_size\<rfloor> = int k then 1 else b ! k))"
  using assms
proof (induction ts arbitrary: b)
  case Nil
  then show ?case by simp
next
  case (Cons t ts)
  have t0: "0 \<le> t / bin_size" using Cons.prems by simp
  hence pi: "py_int (t / bin_size) = \<lfloor>t / bin_size\<rfloor>" by (simp add: py_int_def)
  have fl: "0 \<le> \<lfloor>t / bin_size\<rfloor>" using t0 by simp
  show ?case
  proof (cases "\<lfloor>t / bin_size\<rfloor> < n")
    case True
    let ?j = "nat \<lfloor>t / bin_size\<rfloor>"
    have si: "set_item b \<lfloor>t / bin_size\<rfloor> 1 = Inr (b[?j := 1])"
      using True fl Cons.prems(3) by (simp add: set_item_def Let_def)
    have len: "int (length (b[?j := 1])) = n" using Cons.prems(3) by simp
    from Cons.IH[OF Cons.prems(1) _ len] Cons.prems(2)
    obtain b' where b': "bin_loop bin_size n (b[?j := 1]) ts = Inr b'" "length b' = length b"
      "\<forall>k < length b. b' ! k = (if \<exists>t\<in>set ts. \<lfloor>t / bin_size\<rfloor> = int k then 1 else (b[?j := 1]) ! k)"
      by auto
    have "bin_loop bin_size n b (t # ts) = Inr b'"
      using True pi si b'(1) by simp
    moreover have "\<forall>k < length b. b' ! k = (if \<exists>t\<in>set (t # ts). \<lfloor>t / bin_size\<rfloor> = int k then 1 else b ! k)"
    proof (intro allI impI)
      fix k assume k: "k < length b"
      show "b' ! k = (if \<exists>t\<in>set (t # ts). \<lfloor>t / bin_size\<rfloor> = int k then 1 else b ! k)"
      proof (cases "?j = k")
        case True
        then have "\<lfloor>t / bin_size\<rfloor> = int k" using fl by auto
        then show ?thesis using b'(3) k True by auto
      next
        case False
        then have "\<lfloor>t / bin_size\<rfloor> \<noteq> int k" by auto
        then show ?thesis using b'(3) k False by auto
      qed
    qed
    ultimately show ?thesis using b'(2) by blast
  next
    case False
    from Cons.IH[OF Cons.prems(1) _ Cons.prems(3)] Cons.prems(2)
    obtain b' where b': "bin_loop bin_size n b ts = Inr b'" "length b' = length b"
      "\<forall>k < length b. b' ! k = (if \<exists>t\<in>set ts. \<lfloor>t / bin_size\<rfloor> = int k then 1 else b ! k)"
      by auto
    have "bin_loop bin_size n b (t # ts) = Inr b'"
      using False pi b'(1) by simp
    moreover have "\<forall>k < length b. \<lfloor>t / bin_size\<rfloor> \<noteq> int k"
      using False Cons.prems(3) by auto
    ultimately show ?thesis using b'(2,3) by auto
  qed
qed

lemma spike_train_to_binary_nonneg:
  assumes "0 < bin_size" "0 \<le> duration" "\<forall>t\<in>set ts. 0 \<le> t"
  shows "\<exists>b. spike_train_to_binary duration bin_size ts = Inr b \<and>
     length b = nat \<lfloor>duration / bin_size\<rfloor> \<and>
     (\<forall>k < nat \<lfloor>duration / bin_size\<rfloor>.
        b ! k = (if \<exists>t\<in>set ts. \<lfloor>t / bin_size\<rfloor> = int k then 1 else 0))"
proof -
  let ?n = "\<lfloor>duration / bin_size\<rfloor>"
  have d0: "0 \<le> duration / bin_size" using assms by simp
  hence pi: "py_int (duration / bin_size) = ?n" by (simp add: py_int_def)
  have n0: "0 \<le> ?n" using d0 by simp
  have len: "int (length (replicate (nat ?n) (0::real))) = ?n" using n0 by simp
  from bin_loop_nonneg[OF assms(1) assms(3) len]
  obtain b' where b': "bin_loop bin_size ?n (replicate (nat ?n) 0) ts = Inr b'"
    "length b' = nat ?n"
    "\<forall>k < nat ?n. b' ! k = (if \<exists>t\<in>set ts. \<lfloor>t / bin_size\<rfloor> = int k then 1 else replicate (nat ?n) 0 ! k)"
    by auto
  have "spike_train_to_binary duration bin_size ts = Inr b'"
    using assms(1) pi n0 b'(1) by (simp add: spike_train_to_binary_def Let_def)
  thus ?thesis using b'(2,3) by auto
qed

lemma spike_trains_to_binary_nonneg:
  assumes "0 < bin_size" "0 \<le> duration" "\<forall>ts\<in>set tss. \<forall>t\<in>set ts. 0 \<le> t"
  shows "\<exists>bs. spike_trains_to_binary duration bin_size tss = Inr bs \<and>
     length bs = length tss \<and>
     (\<forall>i < length tss. length (bs ! i) = nat \<lfloor>duration / bin_size\<rfloor> \<and>
        (\<forall>k < nat \<lfloor>duration / bin_size\<rfloor>.
           bs ! i ! k = (if \<exists>t\<in>set (tss ! i). \<lfloor>t / bin_size\<rfloor> = int k then 1 else 0)))"
  using assms(3)
proof (induction tss)
  case Nil
  then show ?case by simp
next
  case (Cons ts tss)
  from spike_train_to_binary_nonneg[OF assms(1,2), of ts] Cons.prems
  obtain b where b: "spike_train_to_binary duration bin_size ts = Inr b"
    "length b = nat \<lfloor>duration / bin_size\<rfloor>"
    "\<forall>k < nat \<lfloor>duration / bin_size\<rfloor>.
        b ! k = (if \<exists>t\<in>set ts. \<lfloor>t / bin_size\<rfloor> = int k then 1 else 0)"
    by auto
  from Cons.IH Cons.prems
  obtain bs where bs: "spike_trains_to_binary duration bin_size tss = Inr bs"
    "length bs = length tss"
    "\<forall>i < length tss. length (bs ! i) = nat \<lfloor>duration / bin_size\<rfloor> \<and>
        (\<forall>k < nat \<lfloor>duration / bin_size\<rfloor>.
           bs ! i ! k = (if \<exists>t\<in>set (tss ! i). \<lfloor>t / bin_size\<rfloor> = int k then 1 else 0))"
    by auto
  have r: "spike_trains_to_binary duration bin_size (ts # tss) = Inr (b # bs)"
    using b(1) bs(1) by simp
  have "\<forall>i < length (ts # tss). length ((b # bs) ! i) = nat \<lfloor>duration / bin_size\<rfloor> \<and>
        (\<forall>k < nat \<lfloor>duration / bin_size\<rfloor>.
           (b # bs) ! i ! k = (if \<exists>t\<in>set ((ts # tss) ! i). \<lfloor>t / bin_size\<rfloor> = int k then 1 else 0))"
  proof (intro allI impI)
    fix i assume i: "i < length (ts # tss)"
    show "length ((b # bs) ! i) = nat \<lfloor>duration / bin_size\<rfloor> \<and>
        (\<forall>k < nat \<lfloor>duration / bin_size\<rfloor>.
           (b # bs) ! i ! k = (if \<exists>t\<in>set ((ts # tss) ! i). \<lfloor>t / bin_size\<rfloor> = int k then 1 else 0))"
    proof (cases i)
      case 0
      then show ?thesis using b(2,3) by simp
    next
      case (Suc j)
      then have "j < length tss" using i by simp
      then show ?thesis using bs(3) Suc by simp
    qed
  qed
  then show ?case using r bs(2) by auto
qed

text \<open>
  C8 (as stated): every spike time \<open>t\<close> contributes only to bin \<open>floor(t / bin_size)\<close>.
  The code truncates towards zero: the spike time -0.5 with bin size 1 has floor -1, yet it
  sets bin 0 (and leaves the last bin, Python's index -1, at 0).
\<close>

theorem spike_trains_to_binary_floor_counterexample:
  "spike_trains_to_binary 5 1 [[- 0.5]] = Inr [[1, 0, 0, 0, 0]] \<and> \<lfloor>(- 0.5 :: real) / 1\<rfloor> = - 1"
  by (simp add: spike_train_to_binary_def py_int_def set_item_def numeral_eq_Suc)

text \<open>
  C8 (amended): the spike times [0.5, 0.5, 3.2] with duration 5 and bin size 1 give exactly
  [1, 0, 0, 1, 0]; and for a positive bin size, a non-negative duration and non-negative spike
  times the call returns, each train becomes a vector of \<open>floor(duration / bin_size)\<close> bins,
  and bin \<open>k\<close> is 1 exactly when some spike time has \<open>floor(t / bin_size) = k\<close> and 0
  otherwise (so spike times whose bin is not below the number of bins are dropped).
\<close>

theorem spike_trains_to_binary_bins:
  "spike_trains_to_binary 5 1 [[0.5, 0.5, 3.2]] = Inr [[1, 0, 0, 1, 0]] \<and>
   (0 < bin_size \<and> 0 \<le> duration \<and> (\<forall>ts\<in>set tss. \<forall>t\<in>set ts. 0 \<le> t) \<longrightarrow>
     (\<exists>bs. spike_trains_to_binary duration bin_size tss = Inr bs \<and>
        length bs = length tss \<and>
        (\<forall>i < length tss. length (bs ! i) = nat \<lfloor>duration / bin_size\<rfloor> \<and>
           (\<forall>k < nat \<lfloor>duration / bin_size\<rfloor>.
              bs ! i ! k = (if \<exists>t\<in>set (tss ! i). \<lfloor>t / bin_size\<rfloor> = int k then 1 else 0)))))"
proof
  show "spike_trains_to_binary 5 1 [[0.5, 0.5, 3.2]] = Inr [[1, 0, 0, 1, 0]]"
    by (simp add: spike_train_to_binary_def py_int_def set_item_def numeral_eq_Suc)
next
  show "0 < bin_size \<and> 0 \<le> duration \<and> (\<forall>ts\<in>set tss. \<forall>t\<in>set ts. 0 \<le> t) \<longrightarrow>
     (\<exists>bs. spike_trains_to_binary duration bin_size tss = Inr bs \<and>
        length bs = length tss \<and>
        (\<forall>i < length tss. length (bs ! i) = nat \<lfloor>duration / bin_size\<rfloor> \<and>
           (\<forall>k < nat \<lfloor>duration / bin_size\<rfloor>.
              bs ! i ! k = (if \<exists>t\<in>set (tss ! i). \<lfloor>t / bin_size\<rfloor> = int k then 1 else 0))))"
    using spike_trains_to_binary_nonneg by blast
qed

theorem spike_trains_to_binary_bins_witness:
  "(0::real) < 2 \<and> (0::real) \<le> 7 \<and>
   spike_trains_to_binary 7 2 [[1, 6.5, 9], [3]] = Inr [[1, 0, 0], [0, 1, 0]] \<and>
   (\<exists>bs. spike_trains_to_binary 7 2 [[1, 6.5, 9], [3]] = Inr bs \<and>
      length bs = length [[1, 6.5, 9], [3 :: real]] \<and>
      (\<forall>i < length [[1, 6.5, 9], [3 :: real]]. length (bs ! i) = nat \<lfloor>(7 :: real) / 2\<rfloor> \<and>
         (\<forall>k < nat \<lfloor>(7 :: real) / 2\<rfloor>.
            bs ! i ! k = (if \<exists>t\<in>set ([[1, 6.5, 9], [3 :: real]] ! i). \<lfloor>t / 2\<rfloor> = int k then 1 else 0))))"
proof -
  have h: "(0::real) < 2 \<and> (0::real) \<le> 7 \<and> (\<forall>ts\<in>set [[1, 6.5, 9], [3 :: real]]. \<forall>t\<in>set ts. 0 \<le> t)"
    by simp
  have e: "spike_trains_to_binary 7 2 [[1, 6.5, 9], [3]] = Inr [[1, 0, 0], [0, 1, 0]]"
    by (simp add: spike_train_to_binary_def py_int_def set_item_def numeral_eq_Suc)
  from spike_trains_to_binary_bins [of 2 7 "[[1, 6.5, 9], [3]]"] h
  have "\<exists>bs. spike_trains_to_binary 7 2 [[1, 6.5, 9], [3]] = Inr bs \<and>
      length bs = length [[1, 6.5, 9], [3 :: real]] \<and>
      (\<forall>i < length [[1, 6.5, 9], [3 :: real]]. length (bs ! i) = nat \<lfloor>(7 :: real) / 2\<rfloor> \<and>
         (\<forall>k < nat \<lfloor>(7 :: real) / 2\<rfloor>.
            bs ! i ! k = (if \<exists>t\<in>set ([[1, 6.5, 9], [3 :: real]] ! i). \<lfloor>t / 2\<rfloor> = int k then 1 else 0)))"
    by blast
  with h e show ?thesis by blast
qed


subsection \<open>lif_integrate\<close>

lemma lif_loop_inv:
  assumes "tau p \<noteq> 0" "ur p \<le> u_thresh p" "length exc = T" "length inh = T"
  shows "n < T \<Longrightarrow> k \<le> n \<Longrightarrow> lif_inv p T k s \<Longrightarrow>
     \<exists>s'. lif_loop p exc inh [k..<n] s = Inr s' \<and> lif_inv p T n s'"
proof (induction "n - k" arbitrary: k s)
  case 0
  then have "k = n" by simp
  then show ?case using 0 by (cases s) simp
next
  case (Suc d)
  obtain us out where s: "s = (us, out)" by (cases s)
  have kn: "k < n" using Suc.hyps(2) by simp
  have kT: "Suc k < T" using kn Suc.prems(1) by simp
  let ?u = "us ! k - dt p * (us ! k - ur p) / tau p + (w_inh p * inh ! k + w_exc p * exc ! k)"
  let ?us1 = "us[k + 1 := ?u]"
  let ?s1 = "if ?us1 ! (k + 1) > u_thresh p then (?us1[k + 1 := ur p], out[k + 1 := 1]) else (?us1, out)"
  have inv: "length us = T" "length out = T" "us ! 0 = ur p"
    "\<forall>i \<le> k. i < T \<longrightarrow> us ! i \<le> u_thresh p \<and> (out ! i = 1 \<longrightarrow> us ! i = ur p)"
    "\<forall>i. k < i \<longrightarrow> i < T \<longrightarrow> out ! i = 0"
    using Suc.prems(3) by (simp_all add: lif_inv_def s)
  have step: "lif_loop p exc inh [k..<n] s = lif_loop p exc inh [Suc k..<n] ?s1"
    using kn kT assms by (simp add: upt_conv_Cons s Let_def)
  have inv1: "lif_inv p T (Suc k) ?s1"
    unfolding lif_inv_def
  proof (intro conjI allI impI)
    show "length (fst ?s1) = T" using inv(1) by simp
    show "length (snd ?s1) = T" using inv(2) by simp
    show "fst ?s1 ! 0 = ur p" using inv(1,3) by simp
  next
    fix i assume "i \<le> Suc k" "i < T"
    show "fst ?s1 ! i \<le> u_thresh p"
    proof (cases "i = Suc k")
      case True
      then show ?thesis using inv(1) kT assms(2) by simp
    next
      case False
      then have "i \<le> k" using \<open>i \<le> Suc k\<close> by simp
      then show ?thesis using inv(4) \<open>i < T\<close> False by simp
    qed
  next
    fix i assume "i \<le> Suc k" "i < T" and o: "snd ?s1 ! i = 1"
    show "fst ?s1 ! i = ur p"
    proof (cases "i = Suc k")
      case True
      then show ?thesis using inv(1,2,5) kT o by (simp split: if_splits)
    next
      case False
      then have "i \<le> k" using \<open>i \<le> Suc k\<close> by simp
      then show ?thesis using inv(4) \<open>i < T\<close> False o by (simp split: if_splits)
    qed
  next
    fix i assume "Suc k < i" "i < T"
    then show "snd ?s1 ! i = 0" using inv(5) by simp
  qed
  have "d = n - Suc k" using Suc.hyps(2) by simp
  from Suc.hyps(1)[OF this Suc.prems(1) _ inv1] kn
  obtain s' where "lif_loop p exc inh [Suc k..<n] ?s1 = Inr s'" "lif_inv p T n s'" by auto
  then show ?case using step by auto
qed

lemma length_sum_axis0: "length (sum_axis0 a) = fst a"
  by (simp add: sum_axis0_def)

lemma lif_integrate_inv:
  assumes "tau p \<noteq> 0" "ur p \<le> u_thresh p" "fst exc = T" "fst inh = T" "1 \<le> T"
  shows "\<exists>us out. lif_integrate p exc inh = Inr (us, out) \<and> length us = T \<and> length out = T \<and>
     us ! 0 = ur p \<and> (\<forall>i < T. out ! i = 1 \<longrightarrow> us ! i = ur p) \<and> (\<forall>i < T. us ! i \<le> u_thresh p)"
proof -
  let ?s0 = "((replicate T (0::real))[0 := ur p], replicate T (0::real))"
  have inv0: "lif_inv p T 0 ?s0"
    using assms(2,5) by (auto simp add: lif_inv_def)
  have "T - 1 < T" using assms(5) by simp
  from lif_loop_inv[OF assms(1,2), of "sum_axis0 exc" T "sum_axis0 inh" "T - 1" 0 ?s0] this inv0
  obtain s' where s': "lif_loop p (sum_axis0 exc) (sum_axis0 inh) [0..<T - 1] ?s0 = Inr s'"
    "lif_inv p T (T - 1) s'"
    using assms(3,4) by (auto simp add: length_sum_axis0)
  obtain us out where so: "s' = (us, out)" by (cases s')
  have ne: "sum_axis0 exc \<noteq> []"
    using assms(3,5) length_sum_axis0[of exc] by auto
  have "lif_integrate p exc inh = Inr (us, out)"
    using s'(1) so assms(3,5) ne by (simp add: lif_integrate_def Let_def length_sum_axis0)
  moreover have "length us = T" "length out = T" "us ! 0 = ur p"
    "\<forall>i < T. us ! i \<le> u_thresh p \<and> (out ! i = 1 \<longrightarrow> us ! i = ur p)"
    using s'(2) so by (auto simp add: lif_inv_def)
  ultimately show ?thesis by auto
qed

text \<open>
  C5: for excitatory and inhibitory spike matrices of equal time length \<open>T \<ge> 1\<close> and the
  default parameters, \<open>lif_integrate\<close> returns traces \<open>us\<close> and \<open>out_spike_train\<close> of length
  \<open>T\<close> with \<open>us[0] = ur\<close>; wherever the spike flag is 1 the potential is exactly
  \<open>ur = -77\<close>; and no stored potential exceeds \<open>u_thresh = -55\<close>.
\<close>

theorem lif_integrate_reset_and_bound:
  assumes "well_shaped exc" "well_shaped inh" "fst exc = T" "fst inh = T" "1 \<le> T"
  shows "\<exists>us out. lif_integrate lif_defaults exc inh = Inr (us, out) \<and>
     length us = T \<and> length out = T \<and> us ! 0 = ur lif_defaults \<and> ur lif_defaults = - 77 \<and>
     (\<forall>i < T. out ! i = 1 \<longrightarrow> us ! i = - 77) \<and> (\<forall>i < T. us ! i \<le> - 55)"
proof -
  have d: "tau lif_defaults \<noteq> 0" "ur lif_defaults \<le> u_thresh lif_defaults"
    "ur lif_defaults = - 77" "u_thresh lif_defaults = - 55"
    by (simp_all add: lif_defaults_def)
  from lif_integrate_inv[OF d(1,2) assms(3,4,5)] show ?thesis
    unfolding d(3,4) by blast
qed

theorem lif_integrate_reset_and_bound_witness:
  "well_shaped (4, [[1, 1, 1, 0], [1, 1, 1, 0], [1, 1, 1, 1], [1, 1, 1, 1], [1, 1, 1, 1], [1, 1, 1, 1]]) \<and>
   well_shaped (4, [[0, 0, 1, 0]]) \<and> (1::nat) \<le> 4 \<and>
   (\<exists>us out. lif_integrate lif_defaults
        (4, [[1, 1, 1, 0], [1, 1, 1, 0], [1, 1, 1, 1], [1, 1, 1, 1], [1, 1, 1, 1], [1, 1, 1, 1]])
        (4, [[0, 0, 1, 0]]) = Inr (us, out) \<and>
      length us = 4 \<and> length out = 4 \<and> us ! 0 = ur lif_defaults \<and> ur lif_defaults = - 77 \<and>
      (\<forall>i < 4. out ! i = 1 \<longrightarrow> us ! i = - 77) \<and> (\<forall>i < 4. us ! i \<le> - 55))"
proof -
  have w1: "well_shaped (4, [[1, 1, 1, 0], [1, 1, 1, 0], [1, 1, 1, 1], [1, 1, 1, 1], [1, 1, 1, 1], [1, 1, 1, 1]])"
    by (simp add: well_shaped_def)
  have w2: "well_shaped (4, [[0, 0, 1, 0]])"
    by (simp add: well_shaped_def)
  have t: "(1::nat) \<le> 4" by simp
  from lif_integrate_reset_and_bound[OF w1 w2 _ _ t] w1 w2 t show ?thesis by simp
qed


subsection \<open>CICRWidget.rhs\<close>

lemma py_pow_pos: "0 < x \<Longrightarrow> py_pow x n = Inr (x powr n)"
proof -
  assume x: "0 < x"
  show ?thesis
  proof (cases "n = of_int \<lfloor>n\<rfloor>")
    case True
    have "x powr of_int \<lfloor>n\<rfloor> = x powi \<lfloor>n\<rfloor>"
      using x by (intro powr_real_of_int') auto
    then show ?thesis using True x by (simp add: py_pow_def)
  next
    case False
    then show ?thesis using x by (simp add: py_pow_def)
  qed
qed

text \<open>
  C4: \<open>rhs\<close> returns exactly \<open>(dCai_dt, dCaSR_dt)\<close> with the fluxes of the specification,
  \<open>p\<close> and \<open>q\<close> being the values of \<open>Cai ** n\<close> and \<open>Kd ** n\<close>; the hypotheses say that the
  two powers and the two quotients of the formulas are defined.
\<close>

theorem rhs_formula:
  assumes "py_pow Cai n = Inr p" "py_pow Kd n = Inr q" "p + q \<noteq> 0" "gamma \<noteq> 0"
  shows "rhs t (Cai, CaSR) Cao k_entry k_extrusion k_uptake kappa0 kappa1 Kd n gamma =
     Inr (k_entry * (Cao - Cai) + (kappa0 + kappa1 * p / (p + q)) * (CaSR - Cai)
            - k_extrusion * Cai - k_uptake * Cai,
          (k_uptake * Cai - (kappa0 + kappa1 * p / (p + q)) * (CaSR - Cai)) / gamma)"
  using assms by (simp add: rhs_def py_truediv_def Let_def)

theorem rhs_formula_witness:
  "py_pow 0.1 3 = Inr 0.001 \<and> py_pow 0.5 3 = Inr 0.125 \<and> (0.001 :: real) + 0.125 \<noteq> 0 \<and>
   (0.24 :: real) \<noteq> 0 \<and>
   rhs 0 (0.1, 4) 1000 0.00002 0.132 0.9 0.013 0.58 0.5 3 0.24 =
     Inr (0.00002 * (1000 - 0.1) + (0.013 + 0.58 * 0.001 / (0.001 + 0.125)) * (4 - 0.1)
            - 0.132 * 0.1 - 0.9 * 0.1,
          (0.9 * 0.1 - (0.013 + 0.58 * 0.001 / (0.001 + 0.125)) * (4 - 0.1)) / 0.24)"
proof -
  have h1: "py_pow 0.1 3 = Inr 0.001"
    by (simp add: py_pow_def power_int_def eval_nat_numeral)
  have h2: "py_pow 0.5 3 = Inr 0.125"
    by (simp add: py_pow_def power_int_def eval_nat_numeral)
  have h3: "(0.001 :: real) + 0.125 \<noteq> 0" by simp
  have h4: "(0.24 :: real) \<noteq> 0" by simp
  from rhs_formula[OF h1 h2 h3 h4] h1 h2 h3 h4 show ?thesis by blast
qed

text \<open>For positive concentrations both powers are the real powers \<open>Cai powr n\<close>, \<open>Kd powr n\<close>.\<close>

lemma rhs_formula_pos:
  assumes "0 < Cai" "0 < Kd" "gamma \<noteq> 0"
  shows "rhs t (Cai, CaSR) Cao k_entry k_extrusion k_uptake kappa0 kappa1 Kd n gamma =
     Inr (k_entry * (Cao - Cai)
            + (kappa0 + kappa1 * (Cai powr n) / (Cai powr n + Kd powr n)) * (CaSR - Cai)
            - k_extrusion * Cai - k_uptake * Cai,
          (k_uptake * Cai
            - (kappa0 + kappa1 * (Cai powr n) / (Cai powr n + Kd powr n)) * (CaSR - Cai)) / gamma)"
proof -
  have "0 < Cai powr n" "0 < Kd powr n" using assms by simp_all
  then have nz: "Cai powr n + Kd powr n \<noteq> 0" by linarith
  show ?thesis
    using assms nz by (simp add: rhs_def py_truediv_def Let_def py_pow_pos)
qed

subsection \<open>Jafri_model_parts.currents_concentrations\<close>

text \<open>
  The twelve occupancy derivatives sum to \<open>gamma * (C_Ca0 - C0)\<close> with
  \<open>gamma = 0.1875 * Ca_SS\<close>: every other transition appears once as an outflow and once as
  an inflow, but the inflow of \<open>dC_Ca0_dt\<close> is \<open>gamma * C_Ca0\<close> where the outflow of
  \<open>dC0_dt\<close> is \<open>gamma * C0\<close>.
\<close>

lemma ltype_derivatives_sum:
  assumes "par_b self \<noteq> 0"
  shows "\<exists>ds. ltype_derivatives self V C0 C1 C2 C3 C4 C_Ca0 C_Ca1 C_Ca2 C_Ca3 C_Ca4 Op O_Ca Ca_SS
        = Inr ds \<and> length ds = 12 \<and> sum_list ds = 0.1875 * Ca_SS * (C_Ca0 - C0)"
  using assms by (simp add: ltype_derivatives_def Let_def algebra_simps)

text \<open>
  C2 claims that the occupancy derivatives sum to zero for every state. At \<open>V = -12\<close>,
  \<open>C0 = 1\<close>, \<open>Ca_SS = 1\<close> and all other occupancies 0 the code returns derivatives that sum
  to -0.1875: the total occupancy is not conserved.
\<close>

theorem ltype_occupancy_not_conserved:
  "ltype_derivatives Jafri_model_parts (- 12) 1 0 0 0 0 0 0 0 0 0 0 0 1 =
     Inr [- 1.7875, 1.6, 0, 0, 0, 0, 0, 0, 0, 0, 0, 0] \<and>
   sum_list [- 1.7875, 1.6, 0, 0, 0, 0, 0, 0, 0, 0, 0, 0 :: real] = - 0.1875"
  by (simp add: ltype_derivatives_def Jafri_model_parts_def Let_def)


subsection \<open>visualize\<close>

lemma get_float_numeric:
  "numeric_row l \<Longrightarrow> get_float (tokens l) 3 = Inr (column 3 l) \<and> get_float (tokens l) 5 = Inr (column 5 l)"
  by (auto simp add: numeric_row_def get_float_def column_def)

lemma visualize_loop_kept:
  assumes "\<forall>l \<in> set lines. \<not> starts_with_hash l \<longrightarrow> numeric_row l"
    "cnt = length di" "length apd = length di" "0 < cnt"
    "di ! (cnt - 1) = column 5 prev" "apd ! (cnt - 1) = column 3 prev"
  shows "visualize_loop lines (di, apd, cnt, dd, da) =
     Inr (di @ map (column 5) (kept_after prev (data_rows lines)),
          apd @ map (column 3) (kept_after prev (data_rows lines)))"
  using assms
proof (induction lines arbitrary: di apd cnt dd da prev)
  case Nil
  then show ?case by (simp add: data_rows_def)
next
  case (Cons l lines)
  show ?case
  proof (cases "starts_with_hash l")
    case True
    have "visualize_loop lines (di, apd, cnt, dd, da) =
       Inr (di @ map (column 5) (kept_after prev (data_rows lines)),
            apd @ map (column 3) (kept_after prev (data_rows lines)))"
      using Cons.IH[of cnt di apd prev dd da] Cons.prems by simp
    then show ?thesis using True by (simp add: data_rows_def)
  next
    case False
    have num: "numeric_row l" using Cons.prems(1) False by simp
    note gf = get_float_numeric[OF num]
    have dr: "data_rows (l # lines) = l # data_rows lines" using False by (simp add: data_rows_def)
    show ?thesis
    proof (cases "acceptable prev l")
      case True
      have "visualize_loop lines (di @ [column 5 l], apd @ [column 3 l], cnt + 1,
              di ! (cnt - 1) - column 5 l, apd ! (cnt - 1) - column 3 l) =
         Inr ((di @ [column 5 l]) @ map (column 5) (kept_after l (data_rows lines)),
              (apd @ [column 3 l]) @ map (column 3) (kept_after l (data_rows lines)))"
        using Cons.prems by (intro Cons.IH) (simp_all add: nth_append)
      then show ?thesis
        using True False gf Cons.prems(4,5,6) dr by (simp add: Let_def acceptable_def)
    next
      case nacc: False
      then show ?thesis
        using False gf Cons.prems(4,5,6) dr by (auto simp add: Let_def acceptable_def)
    qed
  qed
qed

lemma visualize_loop_start:
  assumes "\<forall>l \<in> set lines. \<not> starts_with_hash l \<longrightarrow> numeric_row l"
  shows "visualize_loop lines ([], [], 0, 0, 0) =
     (case data_rows lines of [] \<Rightarrow> Inr ([], [])
      | r # rs \<Rightarrow> Inr (map (column 5) (r # kept_after r rs), map (column 3) (r # kept_after r rs)))"
  using assms
proof (induction lines)
  case Nil
  then show ?case by (simp add: data_rows_def)
next
  case (Cons l lines)
  show ?case
  proof (cases "starts_with_hash l")
    case True
    then show ?thesis using Cons by (simp add: data_rows_def)
  next
    case False
    have num: "numeric_row l" using Cons.prems(1) False by simp
    note gf = get_float_numeric[OF num]
    have dr: "data_rows (l # lines) = l # data_rows lines" using False by (simp add: data_rows_def)
    have "visualize_loop lines ([column 5 l], [column 3 l], 1, 0, 0) =
       Inr ([column 5 l] @ map (column 5) (kept_after l (data_rows lines)),
            [column 3 l] @ map (column 3) (kept_after l (data_rows lines)))"
      using Cons.prems by (intro visualize_loop_kept) simp_all
    then show ?thesis using False gf dr by (simp add: Let_def)
  qed
qed

lemma kept_after_take:
  "\<exists>k \<le> length rows. kept_after prev rows = take k rows \<and>
     (\<forall>i < k. acceptable ((prev # rows) ! i) (rows ! i)) \<and>
     (k < length rows \<longrightarrow> \<not> acceptable ((prev # rows) ! k) (rows ! k))"
proof (induction rows arbitrary: prev)
  case Nil
  then show ?case by simp
next
  case (Cons r rows)
  show ?case
  proof (cases "acceptable prev r")
    case True
    from Cons.IH[of r] obtain k where k: "k \<le> length rows" "kept_after r rows = take k rows"
      "\<forall>i < k. acceptable ((r # rows) ! i) (rows ! i)"
      "k < length rows \<longrightarrow> \<not> acceptable ((r # rows) ! k) (rows ! k)" by blast
    have "\<forall>i < Suc k. acceptable ((prev # r # rows) ! i) ((r # rows) ! i)"
    proof (intro allI impI)
      fix i assume "i < Suc k"
      then show "acceptable ((prev # r # rows) ! i) ((r # rows) ! i)"
        using True k(3) by (cases i) auto
    qed
    then show ?thesis
      using True k(1,2,4) by (intro exI[of _ "Suc k"]) simp
  next
    case False
    then show ?thesis by (intro exI[of _ 0]) simp
  qed
qed

lemma visualize_prefix:
  assumes "\<forall>l \<in> set lines. \<not> starts_with_hash l \<longrightarrow> numeric_row l" "data_rows lines \<noteq> []"
  shows "\<exists>k. 1 \<le> k \<and> k \<le> length (data_rows lines) \<and>
     visualize lines = Inr (plot_arguments (map (column 5) (take k (data_rows lines)))
                                           (map (column 3) (take k (data_rows lines)))) \<and>
     (\<forall>i. 0 < i \<and> i < k \<longrightarrow> acceptable (data_rows lines ! (i - 1)) (data_rows lines ! i)) \<and>
     (k < length (data_rows lines) \<longrightarrow>
        \<not> acceptable (data_rows lines ! (k - 1)) (data_rows lines ! k))"
proof -
  obtain r rs where rows: "data_rows lines = r # rs"
    using assms(2) by (cases "data_rows lines") auto
  from kept_after_take[of rs r] obtain k where k: "k \<le> length rs" "kept_after r rs = take k rs"
    "\<forall>i < k. acceptable ((r # rs) ! i) (rs ! i)"
    "k < length rs \<longrightarrow> \<not> acceptable ((r # rs) ! k) (rs ! k)" by blast
  have loop: "visualize_loop lines ([], [], 0, 0, 0) =
      Inr (map (column 5) (take (Suc k) (r # rs)), map (column 3) (take (Suc k) (r # rs)))"
    using visualize_loop_start[OF assms(1)] rows k(2) by simp
  have v: "visualize lines = Inr (plot_arguments (map (column 5) (take (Suc k) (r # rs)))
                                                   (map (column 3) (take (Suc k) (r # rs))))"
    unfolding visualize_def loop by simp
  have acc: "\<forall>i. 0 < i \<and> i < Suc k \<longrightarrow> acceptable ((r # rs) ! (i - 1)) ((r # rs) ! i)"
  proof (intro allI impI)
    fix i assume i: "0 < i \<and> i < Suc k"
    then obtain j where j: "i = Suc j" by (cases i) auto
    then have "j < k" using i by simp
    then show "acceptable ((r # rs) ! (i - 1)) ((r # rs) ! i)" using k(3) j by simp
  qed
  have stop: "Suc k < length (r # rs) \<longrightarrow> \<not> acceptable ((r # rs) ! (Suc k - 1)) ((r # rs) ! Suc k)"
    using k(4) by simp
  show ?thesis
    unfolding rows using k(1) v acc stop by (intro exI[of _ "Suc k"]) simp
qed

text \<open>
  When DI and APD decrease over the first \<open>k\<close> rows and row \<open>k\<close> is not acceptable after
  row \<open>k - 1\<close>, exactly the first \<open>k\<close> rows are retained.
\<close>

lemma visualize_monotone_then_jump:
  assumes wf: "\<forall>l \<in> set lines. \<not> starts_with_hash l \<longrightarrow> numeric_row l"
    and k: "1 \<le> k" "k < length (data_rows lines)"
    and dec: "\<forall>i. 0 < i \<and> i < k \<longrightarrow>
        column 5 (data_rows lines ! i) < column 5 (data_rows lines ! (i - 1)) \<and>
        column 3 (data_rows lines ! i) < column 3 (data_rows lines ! (i - 1))"
    and jump: "\<not> acceptable (data_rows lines ! (k - 1)) (data_rows lines ! k)"
  shows "visualize lines = Inr (plot_arguments (map (column 5) (take k (data_rows lines)))
                                               (map (column 3) (take k (data_rows lines))))"
proof -
  have ne: "data_rows lines \<noteq> []" using k(2) by auto
  from visualize_prefix[OF wf ne] obtain k' where k': "1 \<le> k'" "k' \<le> length (data_rows lines)"
    "visualize lines = Inr (plot_arguments (map (column 5) (take k' (data_rows lines)))
                                           (map (column 3) (take k' (data_rows lines))))"
    "\<forall>i. 0 < i \<and> i < k' \<longrightarrow> acceptable (data_rows lines ! (i - 1)) (data_rows lines ! i)"
    "k' < length (data_rows lines) \<longrightarrow>
        \<not> acceptable (data_rows lines ! (k' - 1)) (data_rows lines ! k')" by blast
  have "\<not> k' < k"
  proof
    assume lt: "k' < k"
    then have "\<not> acceptable (data_rows lines ! (k' - 1)) (data_rows lines ! k')"
      using k'(5) k(2) by simp
    moreover have "column 5 (data_rows lines ! k') < column 5 (data_rows lines ! (k' - 1)) \<and>
        column 3 (data_rows lines ! k') < column 3 (data_rows lines ! (k' - 1))"
      using dec[rule_format, of k'] lt k'(1) by simp
    then have "acceptable (data_rows lines ! (k' - 1)) (data_rows lines ! k')"
      unfolding acceptable_def by linarith
    ultimately show False by simp
  qed
  moreover have "\<not> k < k'"
  proof
    assume "k < k'"
    then have "acceptable (data_rows lines ! (k - 1)) (data_rows lines ! k)"
      using k'(4) k(1) by simp
    then show False using jump by simp
  qed
  ultimately have "k' = k" by simp
  then show ?thesis using k'(3) by simp
qed

text \<open>
  The same with the jump spelled out in the columns: after \<open>k\<close> decreasing rows, DI rises
  by at least 5 or APD rises by at least 10.
\<close>

lemma visualize_monotone_then_rise:
  assumes wf: "\<forall>l \<in> set lines. \<not> starts_with_hash l \<longrightarrow> numeric_row l"
    and k: "1 \<le> k" "k < length (data_rows lines)"
    and dec: "\<forall>i. 0 < i \<and> i < k \<longrightarrow>
        column 5 (data_rows lines ! i) < column 5 (data_rows lines ! (i - 1)) \<and>
        column 3 (data_rows lines ! i) < column 3 (data_rows lines ! (i - 1))"
    and rise: "5 \<le> column 5 (data_rows lines ! k) - column 5 (data_rows lines ! (k - 1)) \<or>
        10 \<le> column 3 (data_rows lines ! k) - column 3 (data_rows lines ! (k - 1))"
  shows "visualize lines = Inr (plot_arguments (map (column 5) (take k (data_rows lines)))
                                               (map (column 3) (take k (data_rows lines))))"
proof -
  have "\<not> acceptable (data_rows lines ! (k - 1)) (data_rows lines ! k)"
    using rise unfolding acceptable_def by linarith
  with wf k dec show ?thesis by (rule visualize_monotone_then_jump)
qed

text \<open>
  C3 (as stated): for a table where DI and APD decrease over the first \<open>k\<close> rows and then
  jump non-monotonically, exactly the first \<open>k\<close> rows are retained. In the table with
  (APD, DI) = (300, 250), (280, 200), (282, 203) the first two rows decrease and the third
  rises in both columns, by 2 and by 3; the visualizer retains all three rows, not two.
\<close>

theorem visualize_small_rise_counterexample:
  "visualize
     [\<lparr>starts_with_hash = False, tokens = [Some 0, Some 0, Some 0, Some 300, Some 0, Some 250]\<rparr>,
      \<lparr>starts_with_hash = False, tokens = [Some 0, Some 0, Some 0, Some 280, Some 0, Some 200]\<rparr>,
      \<lparr>starts_with_hash = False, tokens = [Some 0, Some 0, Some 0, Some 282, Some 0, Some 203]\<rparr>]
     = Inr ([250, 200, 203], [300, 280, 282], 190, 260, 270, 310) \<and>
   (200 :: real) < 250 \<and> (280 :: real) < 300 \<and> (200 :: real) < 203 \<and> (280 :: real) < 282 \<and>
   [250, 200, 203] \<noteq> [250, 200 :: real]"
  by (simp add: visualize_def get_float_def plot_arguments_def Let_def)

text \<open>
  C3 (amended): the visualizer retains exactly the longest prefix of the data rows (comment
  lines skipped, APD in column 3, DI in column 5) in which the first row is kept and every
  later row has (previous DI) - (current DI) > -5 and (previous APD) - (current APD) > -10: it
  keeps the first \<open>k \<ge> 1\<close> rows, every row of them is acceptable after its predecessor, and
  row \<open>k\<close>, if there is one, is the first that is not. In particular, for a table where DI
  and APD decrease over the first \<open>k\<close> rows and then DI rises by at least 5 or APD rises by
  at least 10, exactly the first \<open>k\<close> rows are retained.
\<close>

theorem visualize_retains_longest_prefix:
  assumes "\<forall>l \<in> set lines. \<not> starts_with_hash l \<longrightarrow> numeric_row l" "data_rows lines \<noteq> []"
  shows "(\<exists>k. 1 \<le> k \<and> k \<le> length (data_rows lines) \<and>
       visualize lines = Inr (plot_arguments (map (column 5) (take k (data_rows lines)))
                                             (map (column 3) (take k (data_rows lines)))) \<and>
       (\<forall>i. 0 < i \<and> i < k \<longrightarrow> acceptable (data_rows lines ! (i - 1)) (data_rows lines ! i)) \<and>
       (k < length (data_rows lines) \<longrightarrow>
          \<not> acceptable (data_rows lines ! (k - 1)) (data_rows lines ! k))) \<and>
     (\<forall>k. 1 \<le> k \<and> k < length (data_rows lines) \<and>
        (\<forall>i. 0 < i \<and> i < k \<longrightarrow>
           column 5 (data_rows lines ! i) < column 5 (data_rows lines ! (i - 1)) \<and>
           column 3 (data_rows lines ! i) < column 3 (data_rows lines ! (i - 1))) \<and>
        (5 \<le> column 5 (data_rows lines ! k) - column 5 (data_rows lines ! (k - 1)) \<or>
         10 \<le> column 3 (data_rows lines ! k) - column 3 (data_rows lines ! (k - 1))) \<longrightarrow>
        visualize lines = Inr (plot_arguments (map (column 5) (take k (data_rows lines)))
                                              (map (column 3) (take k (data_rows lines)))))"
proof (intro conjI allI impI)
  show "\<exists>k. 1 \<le> k \<and> k \<le> length (data_rows lines) \<and>
       visualize lines = Inr (plot_arguments (map (column 5) (take k (data_rows lines)))
                                             (map (column 3) (take k (data_rows lines)))) \<and>
       (\<forall>i. 0 < i \<and> i < k \<longrightarrow> acceptable (data_rows lines ! (i - 1)) (data_rows lines ! i)) \<and>
       (k < length (data_rows lines) \<longrightarrow>
          \<not> acceptable (data_rows lines ! (k - 1)) (data_rows lines ! k))"
    using assms by (rule visualize_prefix)
next
  fix k
  assume a: "1 \<le> k \<and> k < length (data_rows lines) \<and>
        (\<forall>i. 0 < i \<and> i < k \<longrightarrow>
           column 5 (data_rows lines ! i) < column 5 (data_rows lines ! (i - 1)) \<and>
           column 3 (data_rows lines ! i) < column 3 (data_rows lines ! (i - 1))) \<and>
        (5 \<le> column 5 (data_rows lines ! k) - column 5 (data_rows lines ! (k - 1)) \<or>
         10 \<le> column 3 (data_rows lines ! k) - column 3 (data_rows lines ! (k - 1)))"
  show "visualize lines = Inr (plot_arguments (map (column 5) (take k (data_rows lines)))
                                              (map (column 3) (take k (data_rows lines))))"
    using assms(1) a by (intro visualize_monotone_then_rise) blast+
qed

theorem visualize_retains_longest_prefix_witness:
  "data_rows [\<lparr>starts_with_hash = True, tokens = []\<rparr>,
      \<lparr>starts_with_hash = False, tokens = [Some 0, Some 0, Some 0, Some 300, Some 0, Some 250]\<rparr>,
      \<lparr>starts_with_hash = False, tokens = [Some 0, Some 0, Some 0, Some 280, Some 0, Some 200]\<rparr>,
      \<lparr>starts_with_hash = False, tokens = [Some 0, Some 0, Some 0, Some 290, Some 0, Some 400]\<rparr>]
     \<noteq> [] \<and>
   visualize [\<lparr>starts_with_hash = True, tokens = []\<rparr>,
      \<lparr>starts_with_hash = False, tokens = [Some 0, Some 0, Some 0, Some 300, Some 0, Some 250]\<rparr>,
      \<lparr>starts_with_hash = False, tokens = [Some 0, Some 0, Some 0, Some 280, Some 0, Some 200]\<rparr>,
      \<lparr>starts_with_hash = False, tokens = [Some 0, Some 0, Some 0, Some 290, Some 0, Some 400]\<rparr>]
     = Inr ([250, 200], [300, 280], 190, 260, 270, 310)"
proof -
  let ?r1 = "\<lparr>starts_with_hash = False, tokens = [Some 0, Some 0, Some 0, Some 300, Some 0, Some (250::real)]\<rparr>"
  let ?r2 = "\<lparr>starts_with_hash = False, tokens = [Some 0, Some 0, Some 0, Some 280, Some 0, Some (200::real)]\<rparr>"
  let ?r3 = "\<lparr>starts_with_hash = False, tokens = [Some 0, Some 0, Some 0, Some 290, Some 0, Some (400::real)]\<rparr>"
  let ?lines = "[\<lparr>starts_with_hash = True, tokens = []\<rparr>, ?r1, ?r2, ?r3]"
  have h1: "\<forall>l \<in> set ?lines. \<not> starts_with_hash l \<longrightarrow> numeric_row l"
    by (simp add: numeric_row_def)
  have dr: "data_rows ?lines = [?r1, ?r2, ?r3]"
    by (simp add: data_rows_def)
  have h2: "data_rows ?lines \<noteq> []" unfolding dr by simp
  have dec: "\<forall>i. 0 < i \<and> i < 2 \<longrightarrow>
           column 5 ([?r1, ?r2, ?r3] ! i) < column 5 ([?r1, ?r2, ?r3] ! (i - 1)) \<and>
           column 3 ([?r1, ?r2, ?r3] ! i) < column 3 ([?r1, ?r2, ?r3] ! (i - 1))"
  proof (intro allI impI)
    fix i :: nat assume "0 < i \<and> i < 2"
    then have "i = 1" by simp
    then show "column 5 ([?r1, ?r2, ?r3] ! i) < column 5 ([?r1, ?r2, ?r3] ! (i - 1)) \<and>
           column 3 ([?r1, ?r2, ?r3] ! i) < column 3 ([?r1, ?r2, ?r3] ! (i - 1))"
      by (simp add: column_def)
  qed
  have rise: "5 \<le> column 5 ([?r1, ?r2, ?r3] ! 2) - column 5 ([?r1, ?r2, ?r3] ! (2 - 1)) \<or>
         10 \<le> column 3 ([?r1, ?r2, ?r3] ! 2) - column 3 ([?r1, ?r2, ?r3] ! (2 - 1))"
    by (simp add: column_def)
  have k: "(1::nat) \<le> 2 \<and> 2 < length [?r1, ?r2, ?r3]" by simp
  from visualize_retains_longest_prefix[OF h1 h2, unfolded dr] k dec rise
  have "visualize ?lines = Inr (plot_arguments (map (column 5) (take 2 [?r1, ?r2, ?r3]))
                                                (map (column 3) (take 2 [?r1, ?r2, ?r3])))"
    by blast
  then have "visualize ?lines = Inr ([250, 200], [300, 280], 190, 260, 270, 310)"
    by (simp add: plot_arguments_def column_def)
  then show ?thesis using h2 by blast
qed

subsection \<open>jobID\<close>

lemma jobID_with_params:
  assumes "truthy (arg_params args)"
  shows "jobID today args = today @ ''_CI0-'' @ str_int (arg_CI0 args) @ ''_CI1-''
      @ format_optional_int (arg_CI1 args) @ ''_'' @ arg_Protocol args @ ''_'' @ arg_imp args"
  using assms by (simp add: jobID_def Let_def)

lemma jobID_contains:
  assumes "truthy (arg_params args)"
  shows "sublist today (jobID today args)"
    and "sublist (str_int (arg_CI0 args)) (jobID today args)"
    and "sublist (format_optional_int (arg_CI1 args)) (jobID today args)"
    and "sublist (arg_Protocol args) (jobID today args)"
    and "sublist (arg_imp args) (jobID today args)"
proof -
  note j = jobID_with_params[OF assms, of today]
  have "jobID today args = [] @ today @ (''_CI0-'' @ str_int (arg_CI0 args) @ ''_CI1-''
      @ format_optional_int (arg_CI1 args) @ ''_'' @ arg_Protocol args @ ''_'' @ arg_imp args)"
    by (simp add: j)
  then show "sublist today (jobID today args)"
    by (metis sublist_appendI)
  have "jobID today args = (today @ ''_CI0-'') @ str_int (arg_CI0 args) @ (''_CI1-''
      @ format_optional_int (arg_CI1 args) @ ''_'' @ arg_Protocol args @ ''_'' @ arg_imp args)"
    by (simp add: j)
  then show "sublist (str_int (arg_CI0 args)) (jobID today args)"
    by (metis sublist_appendI)
  have "jobID today args = (today @ ''_CI0-'' @ str_int (arg_CI0 args) @ ''_CI1-'')
      @ format_optional_int (arg_CI1 args) @ (''_'' @ arg_Protocol args @ ''_'' @ arg_imp args)"
    by (simp add: j)
  then show "sublist (format_optional_int (arg_CI1 args)) (jobID today args)"
    by (metis sublist_appendI)
  have "jobID today args = (today @ ''_CI0-'' @ str_int (arg_CI0 args) @ ''_CI1-''
      @ format_optional_int (arg_CI1 args) @ ''_'') @ arg_Protocol args @ (''_'' @ arg_imp args)"
    by (simp add: j)
  then show "sublist (arg_Protocol args) (jobID today args)"
    by (metis sublist_appendI)
  have "jobID today args = (today @ ''_CI0-'' @ str_int (arg_CI0 args) @ ''_CI1-''
      @ format_optional_int (arg_CI1 args) @ ''_'' @ arg_Protocol args @ ''_'') @ arg_imp args @ []"
    by (simp add: j)
  then show "sublist (arg_imp args) (jobID today args)"
    by (metis sublist_appendI)
qed

text \<open>
  C7 claims that the job identifier contains the parameter string whenever \<open>--params\<close> is
  given. For \<open>--params G_Kr=0.172\<close> the identifier ends with the model name and the
  parameter string does not occur in it.
\<close>

theorem jobID_omits_params:
  "jobID ''2024-06-17''
     \<lparr>arg_CI0 = 50, arg_CI1 = Some 600, arg_Protocol = ''S1S2'',
      arg_imp = ''tenTusscherPanfilov'', arg_params = Some ''G_Kr=0.172''\<rparr>
     = ''2024-06-17_CI0-50_CI1-600_S1S2_tenTusscherPanfilov'' \<and>
   \<not> sublist ''G_Kr=0.172'' ''2024-06-17_CI0-50_CI1-600_S1S2_tenTusscherPanfilov''"
  by code_simp

subsection \<open>run (01_basic_bench)\<close>

lemma run_init_check:
  assumes "float_of (arg_duration args) = Some d" "float_of (arg_bcl args) = Some b" "b \<noteq> 0"
    "arg_init args \<noteq> []"
  shows "(\<not> isfile (arg_init args) \<longrightarrow>
        run float_of isfile args job_ID =
          Inr (SysExit (- 1)
            [''State variable initialization file '' @ arg_init args @ '' not found!''])) \<and>
     (isfile (arg_init args) \<longrightarrow>
        (\<exists>pre post. run float_of isfile args job_ID =
           Inr (Bench (pre @ [StrArg ''--read-ini-file'', StrArg (arg_init args)] @ post))))"
proof (intro conjI impI)
  assume "\<not> isfile (arg_init args)"
  then show "run float_of isfile args job_ID =
      Inr (SysExit (- 1)
        [''State variable initialization file '' @ arg_init args @ '' not found!''])"
    using assms by (simp add: run_def Let_def)
next
  assume f: "isfile (arg_init args)"
  let ?cmd1 = "[StrArg ''--duration'', StrArg (arg_duration args), StrArg ''--stim-assign'', StrArg ''on'']"
  let ?cmd2 = "(if arg_EP args = ''MBRDR'' then ?cmd1
                 else if arg_EP args = ''tenTusscherPanfilov'' \<or> arg_EP args = ''ORd''
                      then ?cmd1 @ [StrArg ''--stim-species'', StrArg ''K_i'']
                      else ?cmd1)"
  let ?cmd3 = "?cmd2 @ [StrArg (''--imp='' @ arg_EP args)]"
  let ?cmd4 = "(if arg_EP_par args \<noteq> [] then ?cmd3 @ [StrArg ''--imp-par'', StrArg (arg_EP_par args)]
                 else ?cmd3)"
  let ?expID = "(if arg_ID args \<noteq> [] then arg_ID args @ ''_'' else job_ID @ ''_'')"
  let ?pre = "?cmd4 @ [StrArg ''--stim-curr'', FltArg 30.0,
                              StrArg ''--numstim'', IntArg (py_int (d / b + 1)),
                              StrArg ''--bcl'', StrArg (arg_bcl args)] @ [StrArg ''--dt'', FltArg 0.01]
             @ [StrArg ''--dt-out'', FltArg 0.1,
                              StrArg ''--save-ini-file'',
                              StrArg (?expID @ arg_EP args @ ''_bcl_'' @ arg_bcl args @ ''_ms_dur_''
                                     @ arg_duration args @ ''_ms.sv''),
                              StrArg ''--save-ini-time'', StrArg (arg_duration args)]"
  let ?post = "[StrArg (''--fout='' @ path_join job_ID (arg_EP args)), StrArg ''--bin'', StrArg ''-v'']"
  have "run float_of isfile args job_ID =
      Inr (Bench (?pre @ [StrArg ''--read-ini-file'', StrArg (arg_init args)] @ ?post))"
    using assms f by (simp add: run_def Let_def)
  then show "\<exists>pre post. run float_of isfile args job_ID =
           Inr (Bench (pre @ [StrArg ''--read-ini-file'', StrArg (arg_init args)] @ post))"
    by blast
qed

text \<open>
  C9 (as stated): a missing initial-state file always ends \<open>run\<close> with the diagnostic and
  \<open>sys.exit(-1)\<close>. With \<open>--bcl 0\<close> the number of stimuli is computed before the check and
  raises ZeroDivisionError: nothing is printed and there is no \<open>sys.exit(-1)\<close>.
\<close>

theorem run_init_check_counterexample:
  "run sample_float no_files
     \<lparr>arg_EP = ''tenTusscherPanfilov'', arg_EP_par = [], arg_init = ''missing.sv'',
      arg_duration = ''500'', arg_bcl = ''0'', arg_ID = []\<rparr> ''job''
   = Inl ZeroDivisionError"
  by (simp add: run_def sample_float_def Let_def)

text \<open>
  C9 (amended): when \<open>--duration\<close> and \<open>--bcl\<close> are numbers and the cycle length is not zero,
  a non-empty \<open>--init\<close> path that names no existing file makes \<open>run\<close> print the diagnostic
  naming the file and call \<open>sys.exit(-1)\<close> without invoking bench; if the file exists, bench
  is invoked and its argument list contains \<open>--read-ini-file\<close> followed by the path.
\<close>

theorem run_init_file_check:
  assumes "float_of (arg_duration args) = Some d" "float_of (arg_bcl args) = Some b" "b \<noteq> 0"
    "arg_init args \<noteq> []"
  shows "(\<not> isfile (arg_init args) \<longrightarrow>
        run float_of isfile args job_ID =
          Inr (SysExit (- 1)
            [''State variable initialization file '' @ arg_init args @ '' not found!''])) \<and>
     (isfile (arg_init args) \<longrightarrow>
        (\<exists>pre post. run float_of isfile args job_ID =
           Inr (Bench (pre @ [StrArg ''--read-ini-file'', StrArg (arg_init args)] @ post))))"
  using assms by (rule run_init_check)

theorem run_init_file_check_witness:
  "run sample_float no_files
     \<lparr>arg_EP = ''tenTusscherPanfilov'', arg_EP_par = [], arg_init = ''state.sv'',
      arg_duration = ''1000'', arg_bcl = ''500'', arg_ID = []\<rparr> ''job''
     = Inr (SysExit (- 1) [''State variable initialization file state.sv not found!'']) \<and>
   (\<exists>pre post. run sample_float all_files
     \<lparr>arg_EP = ''tenTusscherPanfilov'', arg_EP_par = [], arg_init = ''state.sv'',
      arg_duration = ''1000'', arg_bcl = ''500'', arg_ID = []\<rparr> ''job''
     = Inr (Bench (pre @ [StrArg ''--read-ini-file'', StrArg ''state.sv''] @ post)))"
proof -
  let ?args = "\<lparr>arg_EP = ''tenTusscherPanfilov'', arg_EP_par = [], arg_init = ''state.sv'',
      arg_duration = ''1000'', arg_bcl = ''500'', arg_ID = []\<rparr>"
  have h1: "sample_float (arg_duration ?args) = Some 1000" by (simp add: sample_float_def)
  have h2: "sample_float (arg_bcl ?args) = Some 500" by (simp add: sample_float_def)
  have h3: "(500 :: real) \<noteq> 0" by simp
  have h4: "arg_init ?args \<noteq> []" by simp
  have n: "\<not> no_files (arg_init ?args)" by (simp add: no_files_def)
  have a: "all_files (arg_init ?args)" by (simp add: all_files_def)
  from run_init_file_check[OF h1 h2 h3 h4, of no_files "''job''"] n
  have c1: "run sample_float no_files ?args ''job''
     = Inr (SysExit (- 1) [''State variable initialization file state.sv not found!''])"
    by simp
  from run_init_file_check[OF h1 h2 h3 h4, of all_files "''job''"] a
  have c2: "\<exists>pre post. run sample_float all_files ?args ''job''
     = Inr (Bench (pre @ [StrArg ''--read-ini-file'', StrArg ''state.sv''] @ post))"
    by simp
  from c1 c2 show ?thesis by blast
qed


section \<open>Properties of variable.py\<close>

subsection \<open>compute_gradients\<close>

lemma wf_heap_edges:
  assumes "wf_heap h" "j < length h" "\<not> criteria h j"
  shows "\<forall>e \<in> set (var_gradients (h ! j)). fst e < j"
proof -
  from assms(1,2) have "criteria h j \<or> (\<forall>e \<in> set (var_gradients (h ! j)). fst e < j)"
    unfolding wf_heap_def by blast
  then show ?thesis using assms(3) by blast
qed

lemma compute_children_frame:
  "wf_heap h \<Longrightarrow> (\<forall>e \<in> set cs. fst e < bound) \<Longrightarrow> bound \<le> depth \<Longrightarrow> bound \<le> length h \<Longrightarrow>
     \<exists>g'. compute_children depth h cs tg g = Some g' \<and> (\<forall>k \<ge> bound. g' k = g k)"
proof (induction depth h cs tg g arbitrary: bound rule: compute_children.induct)
  case (1 depth h tg gradients)
  then show ?case by simp
next
  case (2 h edge rest tg gradients)
  have "fst edge < bound" using "2.prems"(2) by simp
  then show ?case using "2.prems"(3) by simp
next
  case (3 depth h c cg rest tg gradients)
  note wf = "3.prems"(1)
  let ?gradient = "tg * cg"
  let ?g1 = "gradients(c \<mapsto> lookup gradients c + ?gradient)"
  have c: "c < bound" using "3.prems"(2) by simp
  have rest: "\<forall>e \<in> set rest. fst e < bound" using "3.prems"(2) by simp
  have f1: "\<forall>k \<ge> bound. ?g1 k = gradients k" using c by simp
  show ?case
  proof (cases "criteria h c")
    case True
    from "3.IH"(1)[OF refl refl True wf rest "3.prems"(3,4)]
    obtain g' where "compute_children (Suc depth) h rest tg ?g1 = Some g'"
      "\<forall>k \<ge> bound. g' k = ?g1 k" by blast
    then show ?thesis using True f1 by (simp add: Let_def)
  next
    case False
    have cl: "c < length h" using c "3.prems"(4) by simp
    have edges: "\<forall>e \<in> set (var_gradients (h ! c)). fst e < c"
      using wf cl False by (rule wf_heap_edges)
    have cd: "c \<le> depth" using c "3.prems"(3) by simp
    have cle: "c \<le> length h" using cl by simp
    from "3.IH"(2)[OF refl refl False wf edges cd cle]
    obtain g2 where g2: "compute_children depth h (var_gradients (h ! c)) ?gradient ?g1 = Some g2"
      "\<forall>k \<ge> c. g2 k = ?g1 k" by blast
    from "3.IH"(3)[OF refl refl False g2(1) wf rest "3.prems"(3,4)]
    obtain g' where g': "compute_children (Suc depth) h rest tg g2 = Some g'"
      "\<forall>k \<ge> bound. g' k = g2 k" by blast
    have "\<forall>k \<ge> bound. g' k = gradients k"
      using g'(2) g2(2) f1 c by auto
    then show ?thesis using False g2(1) g'(1) by (simp add: Let_def)
  qed
qed

lemma criteria_append:
  "j < length h \<Longrightarrow> criteria (h @ [x]) j = criteria h j"
  by (simp add: criteria_def nth_append)

lemma wf_heap_append:
  assumes "wf_heap h" "\<forall>e \<in> set (var_gradients x). fst e < length h"
  shows "wf_heap (h @ [x])"
  unfolding wf_heap_def
proof (intro allI impI)
  fix j assume j: "j < length (h @ [x])"
  show "criteria (h @ [x]) j \<or> (\<forall>e \<in> set (var_gradients ((h @ [x]) ! j)). fst e < j)"
  proof (cases "j < length h")
    case True
    then show ?thesis
      using assms(1) by (auto simp add: wf_heap_def criteria_append nth_append)
  next
    case False
    then have "j = length h" using j by simp
    then show ?thesis using assms(2) by simp
  qed
qed

text \<open>The constructors keep heaps well-formed, starting from the empty heap.\<close>

lemma wf_heap_empty: "wf_heap []"
  by (simp add: wf_heap_def)

lemma wf_heap_append_leaf:
  assumes "wf_heap h"
  shows "wf_heap (h @ [\<lparr>var_value = v, var_gradients = [(length h, d)]\<rparr>])"
  unfolding wf_heap_def
proof (intro allI impI)
  let ?x = "\<lparr>var_value = v, var_gradients = [(length h, d)]\<rparr>"
  fix j assume j: "j < length (h @ [?x])"
  show "criteria (h @ [?x]) j \<or> (\<forall>e \<in> set (var_gradients ((h @ [?x]) ! j)). fst e < j)"
  proof (cases "j < length h")
    case True
    then show ?thesis
      using assms(1) by (auto simp add: wf_heap_def criteria_append nth_append)
  next
    case False
    then have "j = length h" using j by simp
    then show ?thesis by (simp add: criteria_def)
  qed
qed

lemma wf_heap_Variable_leaf:
  assumes "wf_heap h"
  shows "wf_heap (snd (Variable v None h))"
proof -
  have "snd (Variable v None h) = h @ [\<lparr>var_value = v, var_gradients = [(length h, sgn v)]\<rparr>]"
    by (simp add: Variable_def Let_def)
  then show ?thesis using wf_heap_append_leaf[OF assms] by simp
qed

lemma wf_heap_Variable_edges:
  assumes "wf_heap h" "\<forall>e \<in> set gs. fst e < length h"
  shows "wf_heap (snd (Variable v (Some gs) h))"
  using wf_heap_append[OF assms(1), of "\<lparr>var_value = v, var_gradients = gs\<rparr>"] assms(2)
  by (simp add: Variable_def)

lemma pow_node:
  assumes "pow a n h = Inr (p, h')"
  shows "p = length h \<and> (\<exists>v. h' = h @ [\<lparr>var_value = v, var_gradients = [(a, n * var_value (h ! a))]\<rparr>])"
  using assms by (auto simp add: pow_def Variable_def Let_def split: sum.splits)

lemma pow_gradient:
  assumes wf: "wf_heap h" and a: "a < length h" and pw: "pow a n h = Inr (p, h')" and d: "p < depth"
  shows "\<exists>g. compute_gradients depth h' p = Some g \<and> lookup g a = n * var_value (h ! a)"
proof -
  from pow_node[OF pw] obtain v where p: "p = length h"
    and h': "h' = h @ [\<lparr>var_value = v, var_gradients = [(a, n * var_value (h ! a))]\<rparr>]" by blast
  obtain depth' where depth: "depth = Suc depth'" using d by (cases depth) auto
  have wf': "wf_heap h'" unfolding h' using wf a by (intro wf_heap_append) simp_all
  have edges_p: "var_gradients (h' ! p) = [(a, n * var_value (h ! a))]"
    by (simp add: h' p)
  let ?g1 = "(Map.empty :: nat \<rightharpoonup> real)(a \<mapsto> lookup Map.empty a + 1 * (n * var_value (h ! a)))"
  have l1: "lookup ?g1 a = n * var_value (h ! a)" by (simp add: lookup_def)
  show ?thesis
  proof (cases "criteria h' a")
    case True
    then have "compute_gradients depth h' p = Some ?g1"
      by (simp add: compute_gradients_def edges_p depth Let_def)
    then show ?thesis using l1 by blast
  next
    case False
    have al: "a < length h'" using a by (simp add: h')
    have edges: "\<forall>e \<in> set (var_gradients (h' ! a)). fst e < a"
      using wf' al False by (rule wf_heap_edges)
    have ad: "a \<le> depth'" using d a p depth by simp
    have ale: "a \<le> length h'" using al by simp
    from compute_children_frame[OF wf' edges ad ale, of "1 * (n * var_value (h ! a))" ?g1]
    obtain g2 where g2: "compute_children depth' h' (var_gradients (h' ! a))
        (1 * (n * var_value (h ! a))) ?g1 = Some g2" "\<forall>k \<ge> a. g2 k = ?g1 k" by blast
    have "compute_gradients depth h' p = Some g2"
      using False g2(1) by (simp add: compute_gradients_def edges_p depth Let_def)
    moreover have "lookup g2 a = n * var_value (h ! a)"
      using g2(2) by (simp add: lookup_def)
    ultimately show ?thesis by blast
  qed
qed

lemma py_pow_pred:
  assumes "v \<noteq> 0" "py_pow v (n - 2) = Inr d2" "py_pow v (n - 1) = Inr d1"
  shows "d1 = v * d2"
proof (cases "n = of_int \<lfloor>n\<rfloor>")
  case True
  then obtain m :: int where n: "n = of_int m" by metis
  have i1: "n - 1 = of_int (m - 1)" and i2: "n - 2 = of_int (m - 2)" by (simp_all add: n)
  have d1: "d1 = v powi (m - 1)" using assms(1,3) unfolding i1 by (simp add: py_pow_def)
  have d2: "d2 = v powi (m - 2)" using assms(1,2) unfolding i2 by (simp add: py_pow_def)
  have "v powi (1 + (m - 2)) = v powi 1 * v powi (m - 2)"
    using assms(1) by (intro power_int_add) simp
  then show ?thesis using d1 d2 by simp
next
  case False
  then have f1: "n - 1 \<noteq> of_int \<lfloor>n - 1\<rfloor>" and f2: "n - 2 \<noteq> of_int \<lfloor>n - 2\<rfloor>"
    by (auto simp add: algebra_simps)
  have pos: "0 < v" using assms(1,3) f1 by (auto simp add: py_pow_def split: if_splits)
  have d1: "d1 = v powr (n - 1)" using assms(3) f1 pos by (simp add: py_pow_def)
  have d2: "d2 = v powr (n - 2)" using assms(2) f2 pos by (simp add: py_pow_def)
  have "v powr (1 + (n - 2)) = v powr 1 * v powr (n - 2)" by (rule powr_add)
  then show ?thesis using d1 d2 pos by simp
qed

lemma pow_vs_calculus:
  assumes "v \<noteq> 0" "py_pow v (n - 2) = Inr d2" "py_pow v (n - 1) = Inr d1"
  shows "(n * v = n * d1) = (n = 0 \<or> d2 = 1)"
proof -
  have "d1 = v * d2" using assms by (rule py_pow_pred)
  then have "(n * v = n * d1) = (n * v * (1 - d2) = 0)" by (simp add: algebra_simps)
  then show ?thesis using assms(1) by auto
qed

subsection \<open>The self-test of the module\<close>

lemma exp_plus_one_nonzero: "exp (x::real) + 1 \<noteq> 0"
  using exp_gt_zero[of x] by linarith

lemma self_test_graph_eval:
  "self_test_graph = Inr ([\<lparr>var_value = 1 / 10, var_gradients = [(0, 1)]\<rparr>,
      \<lparr>var_value = 4, var_gradients = [(1, 1)]\<rparr>,
      \<lparr>var_value = 3, var_gradients = [(2, 1)]\<rparr>,
      \<lparr>var_value = 10, var_gradients = [(3, 1)]\<rparr>,
      \<lparr>var_value = 3 / 10, var_gradients = [(2, 1 / 10), (0, 3)]\<rparr>,
      \<lparr>var_value = 43 / 10, var_gradients = [(1, 1), (4, 1)]\<rparr>,
      \<lparr>var_value = - (43 / 10), var_gradients = [(5, - 1)]\<rparr>,
      \<lparr>var_value = exp (- (43 / 10)), var_gradients = [(6, exp (- (43 / 10)))]\<rparr>,
      \<lparr>var_value = 1, var_gradients = [(8, 1)]\<rparr>,
      \<lparr>var_value = exp (- (43 / 10)) + 1, var_gradients = [(7, 1), (8, 1)]\<rparr>,
      \<lparr>var_value = 1, var_gradients = [(10, 1)]\<rparr>,
      \<lparr>var_value = 1 / (exp (- (43 / 10)) + 1),
        var_gradients = [(9, - (1 / (exp (- (43 / 10)) + 1)\<^sup>2))]\<rparr>,
      \<lparr>var_value = 1 / (exp (- (43 / 10)) + 1),
        var_gradients = [(10, 1 / (exp (- (43 / 10)) + 1)), (11, 1)]\<rparr>,
      \<lparr>var_value = - (1 / (exp (- (43 / 10)) + 1)), var_gradients = [(12, - 1)]\<rparr>,
      \<lparr>var_value = 10 - 1 / (exp (- (43 / 10)) + 1), var_gradients = [(3, 1), (13, 1)]\<rparr>,
      \<lparr>var_value = (10 - 1 / (exp (- (43 / 10)) + 1))\<^sup>2,
        var_gradients = [(14, 20 - 2 / (exp (- (43 / 10)) + 1))]\<rparr>,
      \<lparr>var_value = 1 / 2, var_gradients = [(16, 1)]\<rparr>,
      \<lparr>var_value = (10 - 1 / (exp (- (43 / 10)) + 1))\<^sup>2 / 2,
        var_gradients = [(15, 1 / 2), (16, (10 - 1 / (exp (- (43 / 10)) + 1))\<^sup>2)]\<rparr>], 3, 12, 17)"
  apply (simp add: self_test_graph_def Variable_def)
  apply (simp add: y_hat_def op_mul_def op_add_def as_variable_def mul_def add_def Variable_def)
  apply (simp add: sigma_def op_neg_def neg_def exp_variable_def as_variable_def Variable_def Let_def)
  apply (simp add: op_radd_def as_variable_def add_def Variable_def)
  apply (simp add: op_rtruediv_def as_variable_def inv_variable_def mul_def Variable_def
      exp_plus_one_nonzero)
  apply (simp add: loss_def op_sub_def as_variable_def neg_def add_def Variable_def)
  apply (simp add: op_pow_def pow_def py_pow_def Variable_def)
  apply (simp add: op_rmul_def as_variable_def mul_def Variable_def)
  done

lemma self_test_gradient_eval:
  "\<exists>g. compute_gradients 20 [\<lparr>var_value = 1 / 10, var_gradients = [(0, 1)]\<rparr>,
      \<lparr>var_value = 4, var_gradients = [(1, 1)]\<rparr>,
      \<lparr>var_value = 3, var_gradients = [(2, 1)]\<rparr>,
      \<lparr>var_value = 10, var_gradients = [(3, 1)]\<rparr>,
      \<lparr>var_value = 3 / 10, var_gradients = [(2, 1 / 10), (0, 3)]\<rparr>,
      \<lparr>var_value = 43 / 10, var_gradients = [(1, 1), (4, 1)]\<rparr>,
      \<lparr>var_value = - (43 / 10), var_gradients = [(5, - 1)]\<rparr>,
      \<lparr>var_value = exp (- (43 / 10)), var_gradients = [(6, exp (- (43 / 10)))]\<rparr>,
      \<lparr>var_value = 1, var_gradients = [(8, 1)]\<rparr>,
      \<lparr>var_value = exp (- (43 / 10)) + 1, var_gradients = [(7, 1), (8, 1)]\<rparr>,
      \<lparr>var_value = 1, var_gradients = [(10, 1)]\<rparr>,
      \<lparr>var_value = 1 / (exp (- (43 / 10)) + 1),
        var_gradients = [(9, - (1 / (exp (- (43 / 10)) + 1)\<^sup>2))]\<rparr>,
      \<lparr>var_value = 1 / (exp (- (43 / 10)) + 1),
        var_gradients = [(10, 1 / (exp (- (43 / 10)) + 1)), (11, 1)]\<rparr>,
      \<lparr>var_value = - (1 / (exp (- (43 / 10)) + 1)), var_gradients = [(12, - 1)]\<rparr>,
      \<lparr>var_value = 10 - 1 / (exp (- (43 / 10)) + 1), var_gradients = [(3, 1), (13, 1)]\<rparr>,
      \<lparr>var_value = (10 - 1 / (exp (- (43 / 10)) + 1))\<^sup>2,
        var_gradients = [(14, 20 - 2 / (exp (- (43 / 10)) + 1))]\<rparr>,
      \<lparr>var_value = 1 / 2, var_gradients = [(16, 1)]\<rparr>,
      \<lparr>var_value = (10 - 1 / (exp (- (43 / 10)) + 1))\<^sup>2 / 2,
        var_gradients = [(15, 1 / 2), (16, (10 - 1 / (exp (- (43 / 10)) + 1))\<^sup>2)]\<rparr>] 17 = Some g \<and> lookup g 3 = 10 - 1 / (exp (- (43 / 10)) + 1)"
  apply (simp add: compute_gradients_def numeral_eq_Suc criteria_def lookup_def Let_def)
  done

lemma sigmoid_bounds:
  "0 < 1 / (exp (x::real) + 1) \<and> 1 / (exp x + 1) < 1"
proof -
  have p: "1 < exp x + 1" using exp_gt_zero[of x] by linarith
  then have q: "0 < exp x + 1" by linarith
  have "0 < 1 / (exp x + 1)" using q by simp
  moreover have "1 / (exp x + 1) < 1" using p q by (simp add: divide_less_eq_1_pos)
  ultimately show ?thesis by blast
qed

lemma isclose_negated_far:
  assumes "0 < s" "s < 1"
  shows "\<not> isclose (10 - s) (s - 10)"
proof -
  have a: "\<bar>(10 - s) - (s - 10)\<bar> = 20 - 2 * s" using assms by simp
  have b: "\<bar>s - 10\<bar> = 10 - s" using assms by simp
  have c: "1 / 10 ^ 8 + (1 / 10 ^ 5) * (10 - s) < 20 - 2 * s"
    using assms by (simp add: field_simps)
  show ?thesis unfolding isclose_def a b using c by linarith
qed

lemma loss_gradient_wrt_y_eval:
  "loss_gradient_wrt_y 20 =
     Some (10 - 1 / (exp (- (43 / 10)) + 1), 10, 1 / (exp (- (43 / 10)) + 1))"
proof -
  from self_test_gradient_eval obtain g where
    g: "compute_gradients 20 [\<lparr>var_value = 1 / 10, var_gradients = [(0, 1)]\<rparr>,
      \<lparr>var_value = 4, var_gradients = [(1, 1)]\<rparr>,
      \<lparr>var_value = 3, var_gradients = [(2, 1)]\<rparr>,
      \<lparr>var_value = 10, var_gradients = [(3, 1)]\<rparr>,
      \<lparr>var_value = 3 / 10, var_gradients = [(2, 1 / 10), (0, 3)]\<rparr>,
      \<lparr>var_value = 43 / 10, var_gradients = [(1, 1), (4, 1)]\<rparr>,
      \<lparr>var_value = - (43 / 10), var_gradients = [(5, - 1)]\<rparr>,
      \<lparr>var_value = exp (- (43 / 10)), var_gradients = [(6, exp (- (43 / 10)))]\<rparr>,
      \<lparr>var_value = 1, var_gradients = [(8, 1)]\<rparr>,
      \<lparr>var_value = exp (- (43 / 10)) + 1, var_gradients = [(7, 1), (8, 1)]\<rparr>,
      \<lparr>var_value = 1, var_gradients = [(10, 1)]\<rparr>,
      \<lparr>var_value = 1 / (exp (- (43 / 10)) + 1),
        var_gradients = [(9, - (1 / (exp (- (43 / 10)) + 1)\<^sup>2))]\<rparr>,
      \<lparr>var_value = 1 / (exp (- (43 / 10)) + 1),
        var_gradients = [(10, 1 / (exp (- (43 / 10)) + 1)), (11, 1)]\<rparr>,
      \<lparr>var_value = - (1 / (exp (- (43 / 10)) + 1)), var_gradients = [(12, - 1)]\<rparr>,
      \<lparr>var_value = 10 - 1 / (exp (- (43 / 10)) + 1), var_gradients = [(3, 1), (13, 1)]\<rparr>,
      \<lparr>var_value = (10 - 1 / (exp (- (43 / 10)) + 1))\<^sup>2,
        var_gradients = [(14, 20 - 2 / (exp (- (43 / 10)) + 1))]\<rparr>,
      \<lparr>var_value = 1 / 2, var_gradients = [(16, 1)]\<rparr>,
      \<lparr>var_value = (10 - 1 / (exp (- (43 / 10)) + 1))\<^sup>2 / 2,
        var_gradients = [(15, 1 / 2), (16, (10 - 1 / (exp (- (43 / 10)) + 1))\<^sup>2)]\<rparr>] 17 = Some g"
       "lookup g 3 = 10 - 1 / (exp (- (43 / 10)) + 1)"
    by blast
  show ?thesis
    unfolding loss_gradient_wrt_y_def self_test_graph_eval
    using g by simp
qed

text \<open>
  C1 (as stated): the gradient of the loss at \<open>y\<close> is close to \<open>y_hat - y\<close>. The computed
  gradient is \<open>y - y_hat\<close>, about 9.01, and \<open>y_hat - y\<close> is its negative.
\<close>

theorem loss_gradient_wrt_y_counterexample:
  "(case loss_gradient_wrt_y 20 of
      None \<Rightarrow> False
    | Some (gy, vy, vyh) \<Rightarrow> vy = 10 \<and> \<not> isclose gy (vyh - vy))"
proof -
  have b: "0 < 1 / (exp (- (43 / 10) :: real) + 1)" "1 / (exp (- (43 / 10) :: real) + 1) < 1"
    using sigmoid_bounds[of "- (43 / 10)"] by simp_all
  have "\<not> isclose (10 - 1 / (exp (- (43 / 10)) + 1)) (1 / (exp (- (43 / 10)) + 1) - 10)"
    using b by (rule isclose_negated_far)
  then show ?thesis by (simp add: loss_gradient_wrt_y_eval)
qed

text \<open>
  C1 (amended): with leaves \<open>w0 = 4\<close>, \<open>w1 = 3\<close>, \<open>x1 = 0.1\<close>, \<open>y = 10\<close>,
  \<open>y_hat = sigmoid(w0 + w1 * x1)\<close> and \<open>L = 0.5 * (y - y_hat) ** 2\<close> built from the
  \<open>Variable\<close> operations, \<open>compute_gradients(L)\<close> returns and assigns to the node \<open>y\<close> the
  value \<open>y - y_hat\<close>, which is what the self-test asserts.
\<close>

theorem loss_gradient_wrt_y_is_y_minus_y_hat:
  "\<exists>gy vy vyh. loss_gradient_wrt_y 20 = Some (gy, vy, vyh) \<and> vy = 10 \<and>
     vyh = 1 / (1 + exp (- (4 + 3 * 0.1))) \<and> gy = vy - vyh \<and> isclose gy (vy - vyh)"
proof -
  have e: "(4 + 3 * 0.1 :: real) = 43 / 10" by simp
  have c: "1 + exp (- (43 / 10) :: real) = exp (- (43 / 10)) + 1" by simp
  have i: "isclose (10 - 1 / (exp (- (43 / 10)) + 1)) (10 - 1 / (exp (- (43 / 10)) + 1))"
    by (simp add: isclose_def)
  show ?thesis
    unfolding e c loss_gradient_wrt_y_eval using i by simp
qed

subsection \<open>Variable.__init__\<close>

text \<open>
  C6: \<open>Variable(v)\<close> without gradients is the new node with exactly one gradient edge, the
  self-edge with local derivative \<open>sign(v)\<close>; it passes the leaf test, so the loop of
  \<open>compute_gradients\<close> adds to its entry and goes on with the next edge without recursing.
\<close>

theorem Variable_default_is_leaf:
  "fst (Variable v None h) = length h \<and>
   var_gradients (snd (Variable v None h) ! length h) = [(length h, sgn v)] \<and>
   criteria (snd (Variable v None h)) (length h) \<and>
   compute_children (Suc depth) (snd (Variable v None h)) ((length h, d) # rest) tg g =
     compute_children (Suc depth) (snd (Variable v None h)) rest tg
       (g(length h \<mapsto> lookup g (length h) + tg * d))"
  by (simp add: Variable_def criteria_def Let_def)

theorem Variable_default_is_leaf_witness:
  "fst (Variable (- 2.5) None []) = 0 \<and>
   var_gradients (snd (Variable (- 2.5) None []) ! 0) = [(0, - 1)] \<and>
   criteria (snd (Variable (- 2.5) None [])) 0"
  using Variable_default_is_leaf[of "- 2.5" "[]" 0 1 "[]" 1 Map.empty] by simp

text \<open>Called on such a leaf itself, \<open>compute_gradients\<close> returns the single entry \<open>sign(v)\<close>.\<close>

lemma compute_gradients_leaf:
  "compute_gradients (Suc depth) (snd (Variable v None h)) (length h) = Some [length h \<mapsto> sgn v]"
  by (simp add: compute_gradients_def Variable_def criteria_def lookup_def Let_def)

subsection \<open>pow\<close>

text \<open>
  C10 (as stated): the derivative \<open>n * a.value\<close> computed for \<open>a ** n\<close> coincides with
  \<open>n * a.value ^ (n - 1)\<close> only when \<open>a.value ^ (n - 2) = 1\<close>. For \<open>a = Variable(0)\<close> and
  \<open>n = 3\<close> the computed derivative is \<open>0 = 3 * 0 ^ 2\<close> although \<open>0 ^ 1\<close> is not 1.
\<close>

theorem pow_only_when_counterexample:
  "(case pow 0 3 (snd (Variable 0 None [])) of
      Inl e \<Rightarrow> False
    | Inr (p, h') \<Rightarrow>
        (case compute_gradients 5 h' p of
           None \<Rightarrow> False
         | Some g \<Rightarrow> lookup g 0 = 3 * (0 :: real) ^ (3 - 1))) \<and>
   (0 :: real) ^ (3 - 2) \<noteq> 1"
  by (simp add: pow_def py_pow_def Variable_def compute_gradients_def criteria_def lookup_def
      Let_def numeral_eq_Suc)

text \<open>
  C10 (amended): \<open>pow(a, n)\<close>, and with it the operator \<open>**\<close>, creates a node whose single
  gradient edge is \<open>(a, n * a.value)\<close>, so \<open>compute_gradients\<close> returns and assigns
  \<open>n * a.value\<close> to \<open>a\<close>; for \<open>a.value \<noteq> 0\<close> this coincides with the calculus derivative
  \<open>n * a.value ^ (n - 1)\<close> exactly when \<open>n = 0\<close> or \<open>a.value ^ (n - 2) = 1\<close>, in particular
  for \<open>n = 2\<close>.
\<close>

theorem pow_gradient_edge:
  assumes "wf_heap h" "a < length h" "pow a n h = Inr (p, h')" "p < depth"
  shows "op_pow a n h = pow a n h \<and>
     var_gradients (h' ! p) = [(a, n * var_value (h ! a))] \<and>
     (\<exists>g. compute_gradients depth h' p = Some g \<and> lookup g a = n * var_value (h ! a)) \<and>
     (\<forall>d1 d2. var_value (h ! a) \<noteq> 0 \<and> py_pow (var_value (h ! a)) (n - 1) = Inr d1 \<and>
        py_pow (var_value (h ! a)) (n - 2) = Inr d2 \<longrightarrow>
        ((n * var_value (h ! a) = n * d1) = (n = 0 \<or> d2 = 1)))"
proof (intro conjI allI impI)
  show "op_pow a n h = pow a n h" by (simp add: op_pow_def)
  from pow_node[OF assms(3)] show "var_gradients (h' ! p) = [(a, n * var_value (h ! a))]"
    by auto
  from pow_gradient[OF assms]
  show "\<exists>g. compute_gradients depth h' p = Some g \<and> lookup g a = n * var_value (h ! a)" .
next
  fix d1 d2
  assume "var_value (h ! a) \<noteq> 0 \<and> py_pow (var_value (h ! a)) (n - 1) = Inr d1 \<and>
        py_pow (var_value (h ! a)) (n - 2) = Inr d2"
  then show "(n * var_value (h ! a) = n * d1) = (n = 0 \<or> d2 = 1)"
    using pow_vs_calculus[of "var_value (h ! a)" n d2 d1] by blast
qed

theorem pow_gradient_edge_witness:
  "wf_heap (snd (Variable 3 None [])) \<and>
   pow 0 2 (snd (Variable 3 None [])) =
     Inr (1, [\<lparr>var_value = 3, var_gradients = [(0, 1)]\<rparr>,
              \<lparr>var_value = 9, var_gradients = [(0, 6)]\<rparr>]) \<and>
   (\<exists>g. compute_gradients 5 [\<lparr>var_value = 3, var_gradients = [(0, 1)]\<rparr>,
              \<lparr>var_value = 9, var_gradients = [(0, 6)]\<rparr>] 1 = Some g \<and> lookup g 0 = 2 * 3)"
proof -
  have h: "snd (Variable 3 None []) = [\<lparr>var_value = 3, var_gradients = [(0, 1)]\<rparr>]"
    by (simp add: Variable_def)
  have w: "wf_heap (snd (Variable 3 None []))"
    unfolding h by (simp add: wf_heap_def criteria_def)
  have a: "0 < length (snd (Variable 3 None []))" unfolding h by simp
  have p: "pow 0 2 (snd (Variable 3 None [])) =
     Inr (1, [\<lparr>var_value = 3, var_gradients = [(0, 1)]\<rparr>,
              \<lparr>var_value = 9, var_gradients = [(0, 6)]\<rparr>])"
    unfolding h by (simp add: pow_def py_pow_def Variable_def)
  have d: "(1 :: nat) < 5" by simp
  from pow_gradient_edge[OF w a p d]
  have "\<exists>g. compute_gradients 5 [\<lparr>var_value = 3, var_gradients = [(0, 1)]\<rparr>,
              \<lparr>var_value = 9, var_gradients = [(0, 6)]\<rparr>] 1 = Some g \<and>
          lookup g 0 = 2 * var_value (snd (Variable 3 None []) ! 0)"
    by blast
  then have "\<exists>g. compute_gradients 5 [\<lparr>var_value = 3, var_gradients = [(0, 1)]\<rparr>,
              \<lparr>var_value = 9, var_gradients = [(0, 6)]\<rparr>] 1 = Some g \<and> lookup g 0 = 2 * 3"
    unfolding h by simp
  with w p show ?thesis by blast
qed

end
